theory Spec2Isabelle
  imports Main "HOL-Library.Word" "HOL-Library.Sublist"
begin

section \<open>The endpoint writer of package remote\<close>

text \<open>
  A shallow embedding of \<^verbatim>\<open>endpoint_writer.go\<close>. Go's \<^verbatim>\<open>int32\<close> and
  \<^verbatim>\<open>uint32\<close> are 32-bit words (\<open>+\<close> wraps; \<open>sint\<close> reads an \<^verbatim>\<open>int32\<close>),
  a pointer that may be \<^verbatim>\<open>nil\<close> is an \<open>option\<close>, a panic is a value, and every
  call into gRPC, the event stream and the actor context is either a parameter (what the
  outside world answers) or an entry of the list of effects the function returns.
\<close>

subsection \<open>Data\<close>

type_synonym int32 = "32 word"
type_synonym uint32 = "32 word"
type_synonym bytes = "8 word list"

text \<open>\<^verbatim>\<open>actor.PID\<close>: the fields the endpoint writer reads.\<close>

record PID =
  Address :: string
  Id' :: string
  RequestId :: uint32

text \<open>\<^verbatim>\<open>MessageHeader{HeaderData map[string]string}\<close>, as its key/value pairs.\<close>

type_synonym MessageHeader = "(string \<times> string) list"

record MessageEnvelope =
  MessageHeader :: "MessageHeader option"
  MessageData :: bytes
  Sender :: int32
  Target :: int32
  TypeId :: int32
  SerializerId :: int32
  TargetRequestId :: uint32
  SenderRequestId :: uint32

record MessageBatch =
  TypeNames :: "string list"
  Targets :: "PID list"
  Senders :: "PID list"
  Envelopes :: "MessageEnvelope option list"

text \<open>
  \<^verbatim>\<open>RemoteMessage\<close> with its \<^verbatim>\<open>MessageType\<close> variants; the connect request carries
  \<^verbatim>\<open>ServerConnection{SystemId, Address}\<close>. \<open>RemoteMessage_Other\<close> is any other
  variant (a disconnect request, an unset \<^verbatim>\<open>MessageType\<close>).
\<close>

datatype RemoteMessage =
    RemoteMessage_MessageBatch MessageBatch
  | RemoteMessage_ConnectRequest string string
  | RemoteMessage_ConnectResponse
  | RemoteMessage_Other

text \<open>
  \<^verbatim>\<open>remoteDeliver\<close>: \<open>header\<close> is \<open>None\<close> for a \<^verbatim>\<open>nil\<close> header and otherwise
  the pairs \<^verbatim>\<open>ToMap()\<close> returns (\<^verbatim>\<open>Length()\<close> is their number); \<open>target\<close> and
  \<open>sender\<close> are \<^verbatim>\<open>*actor.PID\<close>; the payload type \<open>'m\<close> is opaque.
\<close>

record 'm remoteDeliver =
  header :: "MessageHeader option"
  message :: 'm
  target :: "PID option"
  sender :: "PID option"

text \<open>
  An element of the \<^verbatim>\<open>[]interface{}\<close> batch, by what the type switch and the type
  assertion of \<^verbatim>\<open>sendEnvelopes\<close> tell apart: the termination event as a pointer or
  as a value (with its address), a \<^verbatim>\<open>*remoteDeliver\<close>, or a value of any other type.
\<close>

datatype 'm item =
    PtrEndpointTerminatedEvent string
  | ValEndpointTerminatedEvent string
  | PtrRemoteDeliver "'m remoteDeliver"
  | OtherValue

datatype error =
    EOF
  | TransportError string
  | InvalidConnectResponse
  | SerializeError string

datatype panic =
    PanicError error
  | PanicString string
  | NilPointerDereference
  | IndexOutOfRange

text \<open>
  \<^verbatim>\<open>Serialize(message, serializerID)\<close> is outside this file: it is a parameter, which
  answers an error or the bytes and the type name.
\<close>

type_synonym 'm serializer = "'m \<Rightarrow> int32 \<Rightarrow> error + (bytes \<times> string)"

subsection \<open>addToLookup, addToPidLookup\<close>

text \<open>
  A Go \<^verbatim>\<open>map[string]int32\<close> is an association list: \<^verbatim>\<open>len(m)\<close> is its length,
  \<^verbatim>\<open>m[name]\<close> is \<open>map_of\<close>, and \<^verbatim>\<open>m[name] = max\<close>, which both functions run only
  for a key that is not in the map, adds a pair. The map is mutated in place in Go; here
  the new map is returned next to the two results. The variables \<^verbatim>\<open>max\<close> and
  \<^verbatim>\<open>id\<close> are \<open>max'\<close> and \<open>id'\<close>.
\<close>

type_synonym lookup = "(string \<times> int32) list"

definition addToLookup :: "lookup \<Rightarrow> string \<Rightarrow> string list \<Rightarrow> int32 \<times> lookup \<times> string list" where
  "addToLookup m name a =
     (let max' = (of_nat (length m) :: int32) in
      case map_of m name of
        Some id' \<Rightarrow> (id', m, a)
      | None \<Rightarrow> (max', m @ [(name, max')], a @ [name]))"

definition pidKey :: "PID \<Rightarrow> string" where
  "pidKey pid = Address pid @ ''/'' @ Id' pid"

definition addToPidLookup :: "lookup \<Rightarrow> PID option \<Rightarrow> PID list \<Rightarrow> int32 \<times> lookup \<times> PID list" where
  "addToPidLookup m pid arr =
     (case pid of
        None \<Rightarrow> (0, m, arr)
      | Some p \<Rightarrow>
          (let max' = (of_nat (length m) :: int32);
               key = pidKey p
           in case map_of m key of
                Some id' \<Rightarrow> (id' + 1, m, arr)
              | None \<Rightarrow> (max' + 1, m @ [(key, max')], arr @ [p\<lparr>RequestId := 0\<rparr>])))"

subsection \<open>sendEnvelopes: the loop over the batch\<close>

text \<open>
  The local variables of \<^verbatim>\<open>sendEnvelopes\<close>. \<open>hdr\<close> is the variable \<^verbatim>\<open>header\<close>.
  \<open>envelopes\<close> is \<^verbatim>\<open>make([]*MessageEnvelope, len(msg))\<close>: a slice of \<^verbatim>\<open>nil\<close>
  pointers, filled by index.
\<close>

record locals =
  envelopes :: "MessageEnvelope option list"
  typeNames :: lookup
  typeNamesArr :: "string list"
  targetNames :: lookup
  targetNamesArr :: "PID list"
  senderNames :: lookup
  senderNamesArr :: "PID list"
  hdr :: "MessageHeader option"
  typeID :: int32
  targetID :: int32
  senderID :: int32
  serializerID :: int32

definition initial_locals :: "nat \<Rightarrow> locals" where
  "initial_locals n =
     \<lparr>envelopes = replicate n None,
      typeNames = [], typeNamesArr = [],
      targetNames = [], targetNamesArr = [],
      senderNames = [], senderNamesArr = [],
      hdr = None, typeID = 0, targetID = 0, senderID = 0, serializerID = 0\<rparr>"

text \<open>How the \<^verbatim>\<open>for i, tmp := range msg\<close> loop ends.\<close>

datatype loop_exit =
    Completed locals
  | StopRequested
  | Panicked panic

text \<open>One iteration for a \<^verbatim>\<open>*remoteDeliver\<close> (lines 151 to 188).\<close>

definition deliver_step :: "'m serializer \<Rightarrow> nat \<Rightarrow> 'm remoteDeliver \<Rightarrow> locals \<Rightarrow> panic + locals" where
  "deliver_step ser i rd L =
     (let L1 = L\<lparr>hdr := (case header rd of
                            None \<Rightarrow> None
                          | Some h \<Rightarrow> if length h = 0 then None else Some h)\<rparr>
      in case ser (message rd) (serializerID L1) of
           Inl err \<Rightarrow> Inl (PanicError err)
         | Inr (bytes, typeName) \<Rightarrow>
             (let (tyid, tym, tya) = addToLookup (typeNames L1) typeName (typeNamesArr L1);
                  L2 = L1\<lparr>typeID := tyid, typeNames := tym, typeNamesArr := tya\<rparr>;
                  (tgid, tgm, tga) = addToPidLookup (targetNames L2) (target rd) (targetNamesArr L2);
                  L3 = L2\<lparr>targetID := tgid, targetNames := tgm, targetNamesArr := tga\<rparr>;
                  (sdid, sdm, sda) = addToPidLookup (senderNames L3) (sender rd) (senderNamesArr L3);
                  L4 = L3\<lparr>senderID := sdid, senderNames := sdm, senderNamesArr := sda\<rparr>;
                  targetRequestID = (case target rd of None \<Rightarrow> 0 | Some p \<Rightarrow> RequestId p);
                  senderRequestID = (case sender rd of None \<Rightarrow> 0 | Some p \<Rightarrow> RequestId p)
              in if i < length (envelopes L4)
                 then Inr (L4\<lparr>envelopes := (envelopes L4)
                        [i := Some \<lparr>MessageHeader = hdr L4,
                                    MessageData = bytes,
                                    Sender = senderID L4,
                                    Target = targetID L4,
                                    TypeId = typeID L4,
                                    SerializerId = serializerID L4,
                                    TargetRequestId = targetRequestID,
                                    SenderRequestId = senderRequestID\<rparr>]\<rparr>)
                 else Inl IndexOutOfRange))"

fun range_loop :: "'m serializer \<Rightarrow> nat \<Rightarrow> 'm item list \<Rightarrow> locals \<Rightarrow> loop_exit" where
  "range_loop ser i [] L = Completed L"
| "range_loop ser i (PtrEndpointTerminatedEvent a # rest) L = StopRequested"
| "range_loop ser i (ValEndpointTerminatedEvent a # rest) L = StopRequested"
| "range_loop ser i (OtherValue # rest) L = Panicked NilPointerDereference"
| "range_loop ser i (PtrRemoteDeliver rd # rest) L =
     (case deliver_step ser i rd L of
        Inl p \<Rightarrow> Panicked p
      | Inr L' \<Rightarrow> range_loop ser (Suc i) rest L')"

definition assemble :: "'m serializer \<Rightarrow> 'm item list \<Rightarrow> loop_exit" where
  "assemble ser msg = range_loop ser 0 msg (initial_locals (length msg))"

definition batch_of :: "locals \<Rightarrow> MessageBatch" where
  "batch_of L =
     \<lparr>TypeNames = typeNamesArr L, Targets = targetNamesArr L,
      Senders = senderNamesArr L, Envelopes = envelopes L\<rparr>"

subsection \<open>The actor, gRPC and the effects of a call\<close>

datatype event =
    EndpointConnectedEvent string
  | EndpointTerminatedEvent string

text \<open>
  What \<^verbatim>\<open>ctx.Message()\<close> can be, by the cases of the type switch of \<^verbatim>\<open>Receive\<close>:
  the three lifecycle messages, a \<^verbatim>\<open>*EndpointTerminatedEvent\<close> (with its address), a
  \<^verbatim>\<open>[]interface{}\<close> batch, another system or auto-receive message, anything else.
\<close>

datatype 'm message =
    Started
  | Stopped
  | Restarting
  | TerminatedPtr string
  | Batch "'m item list"
  | SystemOrAutoReceive
  | UnknownMessage

text \<open>\<^verbatim>\<open>actor.Context\<close>: the message being handled and \<^verbatim>\<open>ctx.Self()\<close>.\<close>

record 'm actor_ctx =
  Message :: "'m message"
  Self :: PID

text \<open>
  The calls that leave the component, in the order they are made. A connection and a
  stream are named by a number. \<open>Sent s m\<close> is the call \<^verbatim>\<open>stream.Send(m)\<close> on stream
  \<open>s\<close>, whatever it answers; \<open>Received s r\<close> is a \<^verbatim>\<open>stream.Recv()\<close> that returned
  \<open>r\<close>; \<open>Spawned s\<close> is the \<^verbatim>\<open>go func()\<close> that starts the monitor loop on \<open>s\<close>;
  \<open>Stash m\<close> is \<^verbatim>\<open>ctx.Stash()\<close> while \<open>m\<close> is the current message. Log lines are
  left out.
\<close>

datatype 'm effect =
    Dialed string
  | Connected nat
  | Opened nat
  | Sent nat RemoteMessage
  | Received nat "error + RemoteMessage"
  | Spawned nat
  | Published event
  | Stop PID
  | Stash "'m message"
  | Sleep nat
  | CloseSend nat
  | CloseConn nat

text \<open>
  What gRPC answers, as parameters: \<open>Dial\<close> is \<^verbatim>\<open>grpc.Dial\<close> (an error or a
  connection), \<open>OpenStream\<close> is \<^verbatim>\<open>NewRemotingClient(conn).Receive\<close> (an error or a
  stream), \<open>Send\<close> is \<^verbatim>\<open>stream.Send\<close> (\<open>None\<close> for \<^verbatim>\<open>nil\<close>), and \<open>Recv\<close> is the
  handshake's \<^verbatim>\<open>stream.Recv\<close>, which is \<open>None\<close> when no message ever arrives and
  the call does not return.
\<close>

record grpc =
  Dial :: "string \<Rightarrow> error + nat"
  OpenStream :: "nat \<Rightarrow> error + nat"
  Send :: "nat \<Rightarrow> RemoteMessage \<Rightarrow> error option"
  Recv :: "nat \<Rightarrow> (error + RemoteMessage) option"

text \<open>
  The struct \<^verbatim>\<open>endpointWriter\<close>. Of \<^verbatim>\<open>remote\<close> the code reads the actor system's
  id and address (\<open>systemID\<close>, \<open>systemAddress\<close>); the dial and call options of
  \<^verbatim>\<open>config\<close> are passed through to gRPC and left out.
\<close>

record endpointWriter =
  address :: string
  conn :: "nat option"
  stream :: "nat option"
  systemID :: string
  systemAddress :: string

definition endpointWriterProducer :: "string \<Rightarrow> string \<Rightarrow> string \<Rightarrow> endpointWriter" where
  "endpointWriterProducer sysid sysaddr addr =
     \<lparr>address = addr, conn = None, stream = None, systemID = sysid, systemAddress = sysaddr\<rparr>"

text \<open>How a call ends: it returns a value, it panics, or it never returns.\<close>

datatype 'a outcome =
    Returns 'a
  | Panics panic
  | Blocks

subsection \<open>initializeInternal, initialize\<close>

definition isConnectResponse :: "RemoteMessage \<Rightarrow> bool" where
  "isConnectResponse m = (case m of RemoteMessage_ConnectResponse \<Rightarrow> True | _ \<Rightarrow> False)"

definition initializeInternal ::
  "grpc \<Rightarrow> endpointWriter \<Rightarrow> (error option) outcome \<times> endpointWriter \<times> 'm effect list" where
  "initializeInternal g state =
     (case Dial g (address state) of
        Inl err \<Rightarrow> (Returns (Some err), state, [Dialed (address state)])
      | Inr c \<Rightarrow>
          (let state1 = state\<lparr>conn := Some c\<rparr>;
               es1 = [Dialed (address state), Connected c]
           in case OpenStream g c of
                Inl err \<Rightarrow> (Returns (Some err), state1, es1)
              | Inr s \<Rightarrow>
                  (let state2 = state1\<lparr>stream := Some s\<rparr>;
                       request = RemoteMessage_ConnectRequest (systemID state) (systemAddress state);
                       es2 = es1 @ [Opened s, Sent s request]
                   in case Send g s request of
                        Some err \<Rightarrow> (Returns (Some err), state2, es2)
                      | None \<Rightarrow>
                          (case Recv g s of
                             None \<Rightarrow> (Blocks, state2, es2)
                           | Some (Inl err) \<Rightarrow>
                               (Returns (Some err), state2, es2 @ [Received s (Inl err)])
                           | Some (Inr connection) \<Rightarrow>
                               if isConnectResponse connection
                               then (Returns None, state2\<lparr>stream := Some s\<rparr>,
                                     es2 @ [Received s (Inr connection), Spawned s,
                                            Published (EndpointConnectedEvent (address state))])
                               else (Returns (Some InvalidConnectResponse), state2,
                                     es2 @ [Received s (Inr connection)])))))"

definition initialize ::
  "grpc \<Rightarrow> endpointWriter \<Rightarrow> unit outcome \<times> endpointWriter \<times> 'm effect list" where
  "initialize g state =
     (case initializeInternal g state of
        (Returns None, state', es) \<Rightarrow> (Returns (), state', es)
      | (Returns (Some err), state', es) \<Rightarrow> (Panics (PanicError err), state', es @ [Sleep 2])
      | (Panics p, state', es) \<Rightarrow> (Panics p, state', es)
      | (Blocks, state', es) \<Rightarrow> (Blocks, state', es))"

subsection \<open>The monitor loop started by initializeInternal\<close>

text \<open>
  The \<^verbatim>\<open>for\<close> loop of the goroutine (lines 92 to 114), run on the results of its
  successive \<^verbatim>\<open>stream.Recv()\<close> calls; it returns whether the goroutine has returned
  after these reads or is still in the loop (about to read again), and the events it has
  published. \<open>Inl EOF\<close> is an error for which \<^verbatim>\<open>errors.Is(err, io.EOF)\<close> holds. In
  that case the code runs \<^verbatim>\<open>break\<close>, which in Go leaves the \<^verbatim>\<open>switch\<close>, not the
  \<^verbatim>\<open>for\<close>: the loop goes on to the next read.
\<close>

datatype loop_state =
    StillLooping
  | Returned

fun monitor_loop :: "string \<Rightarrow> (error + RemoteMessage) list \<Rightarrow> event list \<Rightarrow> loop_state \<times> event list" where
  "monitor_loop addr [] published = (StillLooping, published)"
| "monitor_loop addr (Inl EOF # reads) published = monitor_loop addr reads published"
| "monitor_loop addr (Inl err # reads) published =
     (Returned, published @ [EndpointTerminatedEvent addr])"
| "monitor_loop addr (Inr m # reads) published =
     monitor_loop addr reads (published @ [EndpointTerminatedEvent addr])"

subsection \<open>sendEnvelopes, closeClientConn, Receive\<close>

definition sendEnvelopes ::
  "'m serializer \<Rightarrow> grpc \<Rightarrow> endpointWriter \<Rightarrow> 'm item list \<Rightarrow> 'm actor_ctx \<Rightarrow> unit outcome \<times> 'm effect list" where
  "sendEnvelopes ser g state msg ctx =
     (case assemble ser msg of
        StopRequested \<Rightarrow> (Returns (), [Stop (Self ctx)])
      | Panicked p \<Rightarrow> (Panics p, [])
      | Completed L \<Rightarrow>
          (case stream state of
             None \<Rightarrow> (Panics NilPointerDereference, [])
           | Some s \<Rightarrow>
               (let m = RemoteMessage_MessageBatch (batch_of L)
                in case Send g s m of
                     None \<Rightarrow> (Returns (), [Sent s m])
                   | Some err \<Rightarrow>
                       (Panics (PanicString ''restart it''), [Sent s m, Stash (Message ctx)]))))"

definition closeClientConn :: "endpointWriter \<Rightarrow> 'm effect list" where
  "closeClientConn state =
     (case stream state of None \<Rightarrow> [] | Some s \<Rightarrow> [CloseSend s]) @
     (case conn state of None \<Rightarrow> [] | Some c \<Rightarrow> [CloseConn c])"

definition Receive ::
  "'m serializer \<Rightarrow> grpc \<Rightarrow> endpointWriter \<Rightarrow> 'm actor_ctx \<Rightarrow> unit outcome \<times> endpointWriter \<times> 'm effect list" where
  "Receive ser g state ctx =
     (case Message ctx of
        Started \<Rightarrow> initialize g state
      | Stopped \<Rightarrow> (Returns (), state, closeClientConn state)
      | Restarting \<Rightarrow> (Returns (), state, closeClientConn state)
      | TerminatedPtr a \<Rightarrow> (Returns (), state, [Stop (Self ctx)])
      | Batch msg \<Rightarrow> (case sendEnvelopes ser g state msg ctx of (out, es) \<Rightarrow> (out, state, es))
      | SystemOrAutoReceive \<Rightarrow> (Returns (), state, [])
      | UnknownMessage \<Rightarrow> (Returns (), state, []))"

subsection \<open>The component under its supervisor\<close>

text \<open>
  The component as the runtime sees it: the current instance of the struct, whether it
  is running, has panicked or is blocked in a call that never returns, and every effect
  so far, oldest first. An input is a message handed to \<^verbatim>\<open>Receive\<close>, together with
  what the serializer and gRPC answer while it is handled, or a restart by the
  supervisor.
\<close>

datatype phase = Running | Failed | Hung

record 'm component =
  actor :: endpointWriter
  phase :: phase
  trace :: "'m effect list"

datatype 'm input =
    Deliver "'m serializer" grpc "'m actor_ctx"
  | Restart

text \<open>A new component: an instance from \<^verbatim>\<open>endpointWriterProducer\<close>, with no effect yet.\<close>

definition spawn :: "string \<Rightarrow> string \<Rightarrow> string \<Rightarrow> 'm component" where
  "spawn sysid sysaddr addr =
     \<lparr>actor = endpointWriterProducer sysid sysaddr addr, phase = Running, trace = []\<rparr>"

text \<open>
  Modelled from the spec: the actor runtime and its supervisor, which are in package
  \<^verbatim>\<open>actor\<close> and not in this file. The component handles one message at a time. A
  panic out of \<^verbatim>\<open>Receive\<close> is a fatal failure, after which the instance gets no
  further message: "fail fatally, signaling the external supervisor to recreate this
  component from scratch (full state reset, re-enter Idle)". A call that never returns
  blocks the component for good. On restart the failed instance gets the restart signal,
  for which \<^verbatim>\<open>Receive\<close> runs \<^verbatim>\<open>closeClientConn\<close>, and a new instance comes from
  \<^verbatim>\<open>endpointWriterProducer\<close>. What \<^verbatim>\<open>Receive\<close> does with a message is the code
  above. A stop requested through \<^verbatim>\<open>ctx.Stop\<close> is left to the runtime: the model lets
  further messages arrive, which only adds runs.
\<close>

fun step :: "'m component \<Rightarrow> 'm input \<Rightarrow> 'm component" where
  "step c (Deliver ser g ctx) =
     (if phase c = Running
      then (case Receive ser g (actor c) ctx of
              (Returns u, state', es) \<Rightarrow> \<lparr>actor = state', phase = Running, trace = trace c @ es\<rparr>
            | (Panics p, state', es) \<Rightarrow> \<lparr>actor = state', phase = Failed, trace = trace c @ es\<rparr>
            | (Blocks, state', es) \<Rightarrow> \<lparr>actor = state', phase = Hung, trace = trace c @ es\<rparr>)
      else c)"
| "step c Restart =
     (if phase c = Failed
      then \<lparr>actor = endpointWriterProducer (systemID (actor c)) (systemAddress (actor c))
                      (address (actor c)),
            phase = Running, trace = trace c @ closeClientConn (actor c)\<rparr>
      else c)"

definition run :: "'m component \<Rightarrow> 'm input list \<Rightarrow> 'm component" where
  "run c inputs = foldl step c inputs"

section \<open>Vocabulary of the statements\<close>

subsection \<open>The deliveries of a batch and what the serializer answers\<close>

text \<open>The \<^verbatim>\<open>*remoteDeliver\<close> elements of a batch, in order.\<close>

fun deliveries :: "'m item list \<Rightarrow> 'm remoteDeliver list" where
  "deliveries [] = []"
| "deliveries (PtrRemoteDeliver rd # rest) = rd # deliveries rest"
| "deliveries (x # rest) = deliveries rest"

text \<open>The references of a list that are not \<^verbatim>\<open>nil\<close>, in order.\<close>

definition present :: "'a option list \<Rightarrow> 'a list" where
  "present xs = concat (map (\<lambda>x. case x of None \<Rightarrow> [] | Some p \<Rightarrow> [p]) xs)"

text \<open>The targets and the senders of a batch that are not \<^verbatim>\<open>nil\<close>, in the batch's order.\<close>

definition targets_of :: "'m item list \<Rightarrow> PID list" where
  "targets_of msg = present (map target (deliveries msg))"

definition senders_of :: "'m item list \<Rightarrow> PID list" where
  "senders_of msg = present (map sender (deliveries msg))"

text \<open>The type name \<^verbatim>\<open>Serialize\<close> answers for a delivery, and the type names of a batch in order (with serializer id 0).\<close>

definition type_name :: "'m serializer \<Rightarrow> int32 \<Rightarrow> 'm remoteDeliver \<Rightarrow> string option" where
  "type_name ser sid rd = (case ser (message rd) sid of Inl err \<Rightarrow> None | Inr (b, tn) \<Rightarrow> Some tn)"

definition type_names :: "'m serializer \<Rightarrow> 'm item list \<Rightarrow> string list" where
  "type_names ser msg = present (map (type_name ser 0) (deliveries msg))"

text \<open>An element that the loop can turn into an envelope: a delivery whose payload serializes.\<close>

definition serializes :: "'m serializer \<Rightarrow> 'm item \<Rightarrow> bool" where
  "serializes ser x =
     (case x of
        PtrRemoteDeliver rd \<Rightarrow> (case ser (message rd) 0 of Inl err \<Rightarrow> False | Inr r \<Rightarrow> True)
      | _ \<Rightarrow> False)"

text \<open>The header and the request id an envelope gets from its delivery.\<close>

definition header_of :: "'m remoteDeliver \<Rightarrow> MessageHeader option" where
  "header_of rd = (case header rd of None \<Rightarrow> None | Some h \<Rightarrow> if length h = 0 then None else Some h)"

definition request_of :: "PID option \<Rightarrow> uint32" where
  "request_of pid = (case pid of None \<Rightarrow> 0 | Some p \<Rightarrow> RequestId p)"

definition built_from :: "'m remoteDeliver \<Rightarrow> bytes \<Rightarrow> MessageEnvelope \<Rightarrow> bool" where
  "built_from rd b e \<longleftrightarrow>
     MessageData e = b \<and> MessageHeader e = header_of rd \<and>
     TargetRequestId e = request_of (target rd) \<and> SenderRequestId e = request_of (sender rd)"

subsection \<open>Interning\<close>

text \<open>The first element of each key \<open>f x\<close>, in the order of first occurrence; with the identity as \<open>f\<close>, the distinct elements in first-seen order.\<close>

fun first_by :: "('a \<Rightarrow> 'k) \<Rightarrow> 'a list \<Rightarrow> 'a list" where
  "first_by f [] = []"
| "first_by f (x # xs) = x # filter (\<lambda>y. f y \<noteq> f x) (first_by f xs)"

text \<open>What one call of \<^verbatim>\<open>addToLookup\<close> and of \<^verbatim>\<open>addToPidLookup\<close> does to the table array.\<close>

definition intern_name :: "string list \<Rightarrow> string \<Rightarrow> string list" where
  "intern_name a n = (if n \<in> set a then a else a @ [n])"

definition intern_pid :: "PID list \<Rightarrow> PID option \<Rightarrow> PID list" where
  "intern_pid arr pid =
     (case pid of
        None \<Rightarrow> arr
      | Some p \<Rightarrow> if pidKey p \<in> pidKey ` set arr then arr else arr @ [p\<lparr>RequestId := 0\<rparr>])"

text \<open>The map of a table holds, for each key of the array, the \<^verbatim>\<open>int32\<close> of its position; keys are not repeated. For a table of references the keys are those of \<open>pidKey\<close>, and every entry has request id 0.\<close>

definition table_inv :: "lookup \<Rightarrow> string list \<Rightarrow> bool" where
  "table_inv m ks \<longleftrightarrow> m = zip ks (map of_nat [0..<length ks]) \<and> distinct ks"

definition pid_inv :: "lookup \<Rightarrow> PID list \<Rightarrow> bool" where
  "pid_inv m arr \<longleftrightarrow> table_inv m (map pidKey arr) \<and> (\<forall>q\<in>set arr. RequestId q = 0)"

definition locals_inv :: "locals \<Rightarrow> bool" where
  "locals_inv L \<longleftrightarrow>
     table_inv (typeNames L) (typeNamesArr L) \<and>
     pid_inv (targetNames L) (targetNamesArr L) \<and>
     pid_inv (senderNames L) (senderNamesArr L)"

text \<open>The index \<open>i\<close> an envelope carries for a reference: 0 for \<^verbatim>\<open>nil\<close>, else one more than the \<^verbatim>\<open>int32\<close> of a position whose entry has the reference's key.\<close>

definition pid_index :: "PID option \<Rightarrow> PID list \<Rightarrow> int32 \<Rightarrow> bool" where
  "pid_index pid arr i =
     (case pid of
        None \<Rightarrow> i = 0
      | Some p \<Rightarrow> (\<exists>j<length arr. pidKey (arr ! j) = pidKey p \<and> i = of_nat j + 1))"

definition envelope_for ::
  "'m serializer \<Rightarrow> int32 \<Rightarrow> 'm remoteDeliver \<Rightarrow> string list \<Rightarrow> PID list \<Rightarrow> PID list \<Rightarrow> MessageEnvelope \<Rightarrow> bool" where
  "envelope_for ser sid rd tya tga sda e \<longleftrightarrow>
     (\<exists>b tn. ser (message rd) sid = Inr (b, tn) \<and> MessageData e = b \<and>
        (\<exists>j<length tya. tya ! j = tn \<and> TypeId e = of_nat j)) \<and>
     MessageHeader e = header_of rd \<and> SerializerId e = sid \<and>
     pid_index (target rd) tga (Target e) \<and> pid_index (sender rd) sda (Sender e) \<and>
     TargetRequestId e = request_of (target rd) \<and> SenderRequestId e = request_of (sender rd)"






subsection \<open>Example inputs\<close>

text \<open>
The batch of the witnesses: three deliveries, two to the same target with request ids 5 and 9, one without a sender; a serializer that answers the payload string as type name (and fails on the empty payload); gRPC that accepts everything; a writer whose fields hold connection 1 and stream 7.
\<close>

definition name_serializer :: "string serializer" where
  "name_serializer m sid = (if m = [] then Inl (SerializeError ''empty'') else Inr ([], m))"

definition T1 :: "nat \<Rightarrow> PID" where
  "T1 r = \<lparr>Address = ''node2:8090'', Id' = ''T1'', RequestId = of_nat r\<rparr>"

definition S1 :: PID where
  "S1 = \<lparr>Address = ''node1:8090'', Id' = ''S1'', RequestId = 0\<rparr>"

definition scenario_A :: "string item list" where
  "scenario_A =
     [PtrRemoteDeliver \<lparr>header = None, message = ''ping'', target = Some (T1 5), sender = Some S1\<rparr>,
      PtrRemoteDeliver \<lparr>header = None, message = ''pong'', target = Some (T1 9), sender = None\<rparr>,
      PtrRemoteDeliver \<lparr>header = None, message = ''ping'', target = Some (T1 9), sender = Some S1\<rparr>]"

definition accepting_grpc :: grpc where
  "accepting_grpc =
     \<lparr>Dial = (\<lambda>a. Inr 1), OpenStream = (\<lambda>c. Inr 7), Send = (\<lambda>s m. None),
      Recv = (\<lambda>s. Some (Inr RemoteMessage_ConnectResponse))\<rparr>"

definition writer_on_stream_7 :: endpointWriter where
  "writer_on_stream_7 = \<lparr>address = ''node2:8090'', conn = Some 1, stream = Some 7,
     systemID = ''sys1'', systemAddress = ''node1:8090''\<rparr>"

definition batch_ctx :: "string item list \<Rightarrow> string actor_ctx" where
  "batch_ctx msg = \<lparr>Message = Batch msg, Self = \<lparr>Address = ''node1:8090'', Id' = ''writer'', RequestId = 0\<rparr>\<rparr>"

subsection \<open>The handshake and the gate on batches\<close>

text \<open>
  The connect request of a writer, and the answers of gRPC under which every step of
  \<^verbatim>\<open>initializeInternal\<close> succeeds on connection \<open>c\<close> and stream \<open>s\<close>.
\<close>

definition connect_request :: "endpointWriter \<Rightarrow> RemoteMessage" where
  "connect_request state = RemoteMessage_ConnectRequest (systemID state) (systemAddress state)"

definition handshake_succeeds :: "grpc \<Rightarrow> endpointWriter \<Rightarrow> nat \<Rightarrow> nat \<Rightarrow> bool" where
  "handshake_succeeds g state c s \<longleftrightarrow>
     Dial g (address state) = Inr c \<and> OpenStream g c = Inr s \<and>
     Send g s (connect_request state) = None \<and>
     Recv g s = Some (Inr RemoteMessage_ConnectResponse)"







text \<open>
  A termination event in a batch, as a pointer or as a value.
\<close>

definition isTerminated :: "'m item \<Rightarrow> bool" where
  "isTerminated x =
     (case x of
        PtrEndpointTerminatedEvent a \<Rightarrow> True
      | ValEndpointTerminatedEvent a \<Rightarrow> True
      | _ \<Rightarrow> False)"

subsection \<open>Further example inputs\<close>

text \<open>
  The batch \<open>scenario_A\<close> as it goes on the wire; gRPC that refuses every send, and
  gRPC whose handshake response is of another variant; batches with a termination event
  after a delivery that serializes, and after one that does not; a writer fresh from
  its producer; runs of the component.
\<close>

definition scenario_A_batch :: MessageBatch where
  "scenario_A_batch =
     \<lparr>TypeNames = [''ping'', ''pong''],
      Targets = [\<lparr>Address = ''node2:8090'', Id' = ''T1'', RequestId = 0\<rparr>],
      Senders = [\<lparr>Address = ''node1:8090'', Id' = ''S1'', RequestId = 0\<rparr>],
      Envelopes =
        [Some \<lparr>MessageHeader = None, MessageData = [], Sender = 1, Target = 1, TypeId = 0,
               SerializerId = 0, TargetRequestId = 5, SenderRequestId = 0\<rparr>,
         Some \<lparr>MessageHeader = None, MessageData = [], Sender = 0, Target = 1, TypeId = 1,
               SerializerId = 0, TargetRequestId = 9, SenderRequestId = 0\<rparr>,
         Some \<lparr>MessageHeader = None, MessageData = [], Sender = 1, Target = 1, TypeId = 0,
               SerializerId = 0, TargetRequestId = 9, SenderRequestId = 0\<rparr>]\<rparr>"

definition rejecting_grpc :: grpc where
  "rejecting_grpc =
     \<lparr>Dial = (\<lambda>a. Inr 1), OpenStream = (\<lambda>c. Inr 7),
      Send = (\<lambda>s m. Some (TransportError ''broken pipe'')),
      Recv = (\<lambda>s. Some (Inr RemoteMessage_ConnectResponse))\<rparr>"

definition wrong_variant_grpc :: grpc where
  "wrong_variant_grpc =
     \<lparr>Dial = (\<lambda>a. Inr 1), OpenStream = (\<lambda>c. Inr 7), Send = (\<lambda>s m. None),
      Recv = (\<lambda>s. Some (Inr RemoteMessage_Other))\<rparr>"

definition terminated_in_the_middle :: "string item list" where
  "terminated_in_the_middle =
     [PtrRemoteDeliver \<lparr>header = None, message = ''ping'', target = Some (T1 5), sender = Some S1\<rparr>,
      PtrEndpointTerminatedEvent ''node2:8090'',
      PtrRemoteDeliver \<lparr>header = None, message = ''pong'', target = Some (T1 9), sender = None\<rparr>]"

definition terminated_after_unserializable :: "string item list" where
  "terminated_after_unserializable =
     [PtrRemoteDeliver \<lparr>header = None, message = [], target = Some (T1 5), sender = Some S1\<rparr>,
      PtrEndpointTerminatedEvent ''node2:8090'']"

definition fresh_writer :: endpointWriter where
  "fresh_writer = endpointWriterProducer ''sys1'' ''node1:8090'' ''node2:8090''"

definition started_ctx :: "string actor_ctx" where
  "started_ctx = \<lparr>Message = Started, Self = \<lparr>Address = ''node1:8090'', Id' = ''writer'', RequestId = 0\<rparr>\<rparr>"


definition refused_then_batch :: "string input list" where
  "refused_then_batch =
     [Deliver name_serializer wrong_variant_grpc started_ctx,
      Deliver name_serializer wrong_variant_grpc (batch_ctx scenario_A)]"

section \<open>Lemmas\<close>

lemma table_inv_length: "table_inv m ks \<Longrightarrow> length m = length ks"
  by (simp add: table_inv_def)

lemma table_inv_None: "table_inv m ks \<Longrightarrow> map_of m k = None \<longleftrightarrow> k \<notin> set ks"
  by (simp add: table_inv_def map_of_zip_is_None)

lemma table_inv_Some:
  assumes "table_inv m ks" "map_of m k = Some v"
  shows "\<exists>j<length ks. ks ! j = k \<and> v = of_nat j"
proof -
  from assms have "k \<in> set ks"
    using table_inv_None [of m ks k] by auto
  then obtain j where j: "j < length ks" "ks ! j = k"
    by (auto simp: in_set_conv_nth)
  from assms(1) have m: "m = zip ks (map of_nat [0..<length ks])" and d: "distinct ks"
    by (simp_all add: table_inv_def)
  have "map_of m (ks ! j) = Some (map of_nat [0..<length ks] ! j)"
    unfolding m by (rule map_of_zip_nth) (use d j in simp_all)
  with assms(2) j show ?thesis by auto
qed

lemma table_inv_snoc:
  assumes "table_inv m ks" "k \<notin> set ks"
  shows "table_inv (m @ [(k, of_nat (length m))]) (ks @ [k])"
  using assms by (simp add: table_inv_def)

lemma addToLookup_inv:
  assumes "table_inv m a" "addToLookup m n a = (i, m', a')"
  shows "table_inv m' a'"
    and "a' = (if n \<in> set a then a else a @ [n])"
    and "\<exists>j<length a'. a' ! j = n \<and> i = of_nat j"
proof -
  show "table_inv m' a'" "a' = (if n \<in> set a then a else a @ [n])"
    using assms table_inv_None [OF assms(1), of n] table_inv_snoc [OF assms(1), of n]
    by (auto simp: addToLookup_def Let_def split: option.splits)
  show "\<exists>j<length a'. a' ! j = n \<and> i = of_nat j"
  proof (cases "map_of m n")
    case None
    with assms have "a' = a @ [n]" "i = of_nat (length m)"
      by (auto simp: addToLookup_def Let_def)
    with table_inv_length [OF assms(1)] show ?thesis
      by (intro exI [of _ "length a"]) simp
  next
    case (Some v)
    with assms have "a' = a" "i = v"
      by (auto simp: addToLookup_def Let_def)
    with table_inv_Some [OF assms(1) Some] show ?thesis by simp
  qed
qed

lemma pidKey_strip [simp]: "pidKey (p\<lparr>RequestId := r\<rparr>) = pidKey p"
  by (simp add: pidKey_def)

lemma addToPidLookup_inv:
  assumes "pid_inv m arr" "addToPidLookup m pid arr = (i, m', arr')"
  shows "pid_inv m' arr'"
    and "arr' = (case pid of None \<Rightarrow> arr
                 | Some p \<Rightarrow> if pidKey p \<in> pidKey ` set arr then arr else arr @ [p\<lparr>RequestId := 0\<rparr>])"
    and "pid_index pid arr' i"
proof -
  have t: "table_inv m (map pidKey arr)" using assms(1) by (simp add: pid_inv_def)
  have unseen: "map_of m k = None \<longleftrightarrow> k \<notin> pidKey ` set arr" for k
    using table_inv_None [OF t, of k] by simp
  show "pid_inv m' arr'"
  proof (cases pid)
    case None
    with assms show ?thesis by (simp add: addToPidLookup_def)
  next
    case (Some p)
    show ?thesis
    proof (cases "map_of m (pidKey p)")
      case None
      with Some assms unseen [of "pidKey p"] table_inv_snoc [OF t, of "pidKey p"] show ?thesis
        by (auto simp: addToPidLookup_def Let_def pid_inv_def)
    next
      case (Some v)
      with \<open>pid = Some p\<close> assms show ?thesis
        by (auto simp: addToPidLookup_def Let_def)
    qed
  qed
  show "arr' = (case pid of None \<Rightarrow> arr
                 | Some p \<Rightarrow> if pidKey p \<in> pidKey ` set arr then arr else arr @ [p\<lparr>RequestId := 0\<rparr>])"
  proof (cases pid)
    case None
    with assms show ?thesis by (simp add: addToPidLookup_def)
  next
    case (Some p)
    show ?thesis
    proof (cases "map_of m (pidKey p)")
      case None
      with Some assms unseen [of "pidKey p"] show ?thesis
        by (auto simp: addToPidLookup_def Let_def)
    next
      case (Some v)
      with \<open>pid = Some p\<close> assms unseen [of "pidKey p"] show ?thesis
        by (auto simp: addToPidLookup_def Let_def)
    qed
  qed
  show "pid_index pid arr' i"
  proof (cases pid)
    case None
    with assms show ?thesis by (simp add: addToPidLookup_def pid_index_def)
  next
    case (Some p)
    show ?thesis
    proof (cases "map_of m (pidKey p)")
      case None
      with Some assms have "arr' = arr @ [p\<lparr>RequestId := 0\<rparr>]" "i = of_nat (length m) + 1"
        by (auto simp: addToPidLookup_def Let_def)
      with table_inv_length [OF t] Some show ?thesis
        by (auto simp: pid_index_def intro!: exI [of _ "length arr"])
    next
      case (Some v)
      with \<open>pid = Some p\<close> assms have "arr' = arr" "i = v + 1"
        by (auto simp: addToPidLookup_def Let_def)
      with table_inv_Some [OF t Some] \<open>pid = Some p\<close> show ?thesis
        by (auto simp: pid_index_def)
    qed
  qed
qed

lemma prefix_nth: "prefix xs ys \<Longrightarrow> j < length xs \<Longrightarrow> ys ! j = xs ! j"
  by (auto simp: prefix_def nth_append)

lemma pid_index_prefix: "prefix arr arr' \<Longrightarrow> pid_index pid arr i \<Longrightarrow> pid_index pid arr' i"
  unfolding pid_index_def
  by (cases pid) (auto simp: prefix_def nth_append intro: exI)

lemma envelope_for_prefix:
  assumes "envelope_for ser sid rd tya tga sda e" "prefix tya tya'" "prefix tga tga'" "prefix sda sda'"
  shows "envelope_for ser sid rd tya' tga' sda' e"
proof -
  from assms(1) obtain b tn j where
    a: "ser (message rd) sid = Inr (b, tn)" "MessageData e = b" "j < length tya" "tya ! j = tn" "TypeId e = of_nat j"
    by (auto simp: envelope_for_def)
  from a(3,4) assms(2) have "j < length tya'" "tya' ! j = tn"
    by (auto simp: prefix_def nth_append)
  with a assms pid_index_prefix show ?thesis
    unfolding envelope_for_def by blast
qed

lemma deliver_step_Inr:
  assumes "deliver_step ser i rd L = Inr L'" "locals_inv L"
  shows "locals_inv L'"
    and "serializerID L' = serializerID L"
    and "prefix (typeNamesArr L) (typeNamesArr L')"
    and "prefix (targetNamesArr L) (targetNamesArr L')"
    and "prefix (senderNamesArr L) (senderNamesArr L')"
    and "i < length (envelopes L)"
    and "\<exists>e. envelopes L' = (envelopes L)[i := Some e] \<and>
           envelope_for ser (serializerID L) rd (typeNamesArr L') (targetNamesArr L') (senderNamesArr L') e"
    and "\<exists>b tn. ser (message rd) (serializerID L) = Inr (b, tn) \<and>
           typeNamesArr L' = intern_name (typeNamesArr L) tn"
    and "targetNamesArr L' = intern_pid (targetNamesArr L) (target rd)"
    and "senderNamesArr L' = intern_pid (senderNamesArr L) (sender rd)"
proof -
  from assms(1) obtain b tn where s: "ser (message rd) (serializerID L) = Inr (b, tn)"
    by (auto simp: deliver_step_def Let_def split: sum.splits)
  obtain tyid tym tya where ty: "addToLookup (typeNames L) tn (typeNamesArr L) = (tyid, tym, tya)"
    by (cases "addToLookup (typeNames L) tn (typeNamesArr L)")
  obtain tgid tgm tga where tg: "addToPidLookup (targetNames L) (target rd) (targetNamesArr L) = (tgid, tgm, tga)"
    by (cases "addToPidLookup (targetNames L) (target rd) (targetNamesArr L)")
  obtain sdid sdm sda where sd: "addToPidLookup (senderNames L) (sender rd) (senderNamesArr L) = (sdid, sdm, sda)"
    by (cases "addToPidLookup (senderNames L) (sender rd) (senderNamesArr L)")
  define e where "e = \<lparr>MessageHeader = header_of rd, MessageData = b, Sender = sdid, Target = tgid,
      TypeId = tyid, SerializerId = serializerID L,
      TargetRequestId = request_of (target rd), SenderRequestId = request_of (sender rd)\<rparr>"
  from assms(1) s ty tg sd
  have i: "i < length (envelopes L)"
    and L': "L' = L\<lparr>hdr := header_of rd, typeID := tyid, typeNames := tym, typeNamesArr := tya,
                    targetID := tgid, targetNames := tgm, targetNamesArr := tga,
                    senderID := sdid, senderNames := sdm, senderNamesArr := sda,
                    envelopes := (envelopes L)[i := Some e]\<rparr>"
    by (auto simp: deliver_step_def Let_def e_def header_of_def request_of_def split: if_splits)
  from assms(2) have inv: "table_inv (typeNames L) (typeNamesArr L)"
    "pid_inv (targetNames L) (targetNamesArr L)" "pid_inv (senderNames L) (senderNamesArr L)"
    by (simp_all add: locals_inv_def)
  note tyf = addToLookup_inv [OF inv(1) ty]
  note tgf = addToPidLookup_inv [OF inv(2) tg]
  note sdf = addToPidLookup_inv [OF inv(3) sd]
  show "locals_inv L'" using tyf(1) tgf(1) sdf(1) by (simp add: L' locals_inv_def)
  show "serializerID L' = serializerID L" by (simp add: L')
  show "prefix (typeNamesArr L) (typeNamesArr L')" using tyf(2) by (simp add: L')
  show "prefix (targetNamesArr L) (targetNamesArr L')" using tgf(2) by (simp add: L' split: option.splits)
  show "prefix (senderNamesArr L) (senderNamesArr L')" using sdf(2) by (simp add: L' split: option.splits)
  show "i < length (envelopes L)" by (fact i)
  have "envelope_for ser (serializerID L) rd tya tga sda e"
    using s tyf(3) tgf(3) sdf(3) by (simp add: envelope_for_def e_def)
  then show "\<exists>e. envelopes L' = (envelopes L)[i := Some e] \<and>
           envelope_for ser (serializerID L) rd (typeNamesArr L') (targetNamesArr L') (senderNamesArr L') e"
    by (intro exI [of _ e]) (simp add: L')
  show "\<exists>b tn. ser (message rd) (serializerID L) = Inr (b, tn) \<and>
           typeNamesArr L' = intern_name (typeNamesArr L) tn"
    using s tyf(2) by (simp add: L' intern_name_def)
  show "targetNamesArr L' = intern_pid (targetNamesArr L) (target rd)"
    using tgf(2) by (simp add: L' intern_pid_def)
  show "senderNamesArr L' = intern_pid (senderNamesArr L) (sender rd)"
    using sdf(2) by (simp add: L' intern_pid_def)
qed

lemma range_loop_frame:
  "range_loop ser i msg L = Completed L' \<Longrightarrow> locals_inv L \<Longrightarrow>
     locals_inv L' \<and> serializerID L' = serializerID L \<and>
     length (envelopes L') = length (envelopes L) \<and>
     (\<forall>j<i. envelopes L' ! j = envelopes L ! j) \<and>
     prefix (typeNamesArr L) (typeNamesArr L') \<and>
     prefix (targetNamesArr L) (targetNamesArr L') \<and>
     prefix (senderNamesArr L) (senderNamesArr L')"
proof (induction ser i msg L rule: range_loop.induct)
  case (5 ser i rd rest L)
  from "5.prems"(1) obtain L1 where
    step: "deliver_step ser i rd L = Inr L1" and rest: "range_loop ser (Suc i) rest L1 = Completed L'"
    by (auto split: sum.splits)
  note d = deliver_step_Inr [OF step "5.prems"(2)]
  from d(7) obtain e where e: "envelopes L1 = (envelopes L)[i := Some e]" by blast
  from "5.IH" [OF step rest d(1)] d e show ?case
    by (auto intro: prefix_order.trans)
qed simp_all

lemma range_loop_envelopes:
  "range_loop ser i msg L = Completed L' \<Longrightarrow> locals_inv L \<Longrightarrow> k < length msg \<Longrightarrow>
     \<exists>rd e. msg ! k = PtrRemoteDeliver rd \<and> envelopes L' ! (i + k) = Some e \<and>
       envelope_for ser (serializerID L) rd (typeNamesArr L') (targetNamesArr L') (senderNamesArr L') e"
proof (induction ser i msg L arbitrary: k rule: range_loop.induct)
  case (5 ser i rd rest L)
  from "5.prems"(1) obtain L1 where
    step: "deliver_step ser i rd L = Inr L1" and rest: "range_loop ser (Suc i) rest L1 = Completed L'"
    by (auto split: sum.splits)
  note d = deliver_step_Inr [OF step "5.prems"(2)]
  note f = range_loop_frame [OF rest d(1)]
  show ?case
  proof (cases k)
    case 0
    from d(7) obtain e where e: "envelopes L1 = (envelopes L)[i := Some e]"
      and ok: "envelope_for ser (serializerID L) rd (typeNamesArr L1) (targetNamesArr L1) (senderNamesArr L1) e"
      by blast
    from f e d(6) have "envelopes L' ! i = Some e" by simp
    moreover from ok f have
      "envelope_for ser (serializerID L) rd (typeNamesArr L') (targetNamesArr L') (senderNamesArr L') e"
      by (auto intro: envelope_for_prefix)
    ultimately show ?thesis using 0 by simp
  next
    case (Suc k')
    with "5.prems"(3) have "k' < length rest" by simp
    from "5.IH" [OF step rest d(1) this] d(2) Suc show ?thesis by simp
  qed
qed simp_all



lemma distinct_map_first_by: "distinct (map f (first_by f xs))"
proof (induction xs)
  case Nil
  show ?case by simp
next
  case (Cons x xs)
  have "f x \<notin> set (map f (filter (\<lambda>y. f y \<noteq> f x) (first_by f xs)))"
    by auto
  moreover have "distinct (map f (filter (\<lambda>y. f y \<noteq> f x) (first_by f xs)))"
    using Cons.IH by (rule distinct_map_filter)
  ultimately show ?case
    by (simp only: first_by.simps list.map distinct.simps) simp
qed

lemma filter_absorb:
  "(\<And>x. P x \<Longrightarrow> Q x) \<Longrightarrow> filter P (filter Q xs) = filter P xs"
  by (induction xs) auto

lemma filter_both:
  "filter P (filter Q xs) = filter (\<lambda>x. P x \<and> Q x) xs"
  by (induction xs) auto

lemma foldl_intern_name:
  "foldl intern_name a ns = a @ filter (\<lambda>n. n \<notin> set a) (first_by (\<lambda>n. n) ns)"
proof (induction ns arbitrary: a)
  case Nil
  show ?case by simp
next
  case (Cons n ns)
  let ?rest = "first_by (\<lambda>n. n) ns"
  show ?case
  proof (cases "n \<in> set a")
    case True
    then have "filter (\<lambda>y. y \<notin> set a) (filter (\<lambda>y. y \<noteq> n) ?rest) = filter (\<lambda>y. y \<notin> set a) ?rest"
      by (intro filter_absorb) auto
    moreover have "foldl intern_name a (n # ns) = foldl intern_name a ns"
      using True by (simp add: intern_name_def)
    moreover have "filter (\<lambda>y. y \<notin> set a) (first_by (\<lambda>n. n) (n # ns))
                 = filter (\<lambda>y. y \<notin> set a) (filter (\<lambda>y. y \<noteq> n) ?rest)"
      using True by (simp del: filter_filter)
    ultimately show ?thesis using Cons.IH [of a] by (simp only:)
  next
    case False
    have "filter (\<lambda>y. y \<notin> set (a @ [n])) ?rest
        = filter (\<lambda>y. y \<notin> set a) (filter (\<lambda>y. y \<noteq> n) ?rest)"
      unfolding filter_both by (intro filter_cong) auto
    moreover have "foldl intern_name a (n # ns) = foldl intern_name (a @ [n]) ns"
      using False by (simp add: intern_name_def)
    moreover have "filter (\<lambda>y. y \<notin> set a) (first_by (\<lambda>n. n) (n # ns))
                 = n # filter (\<lambda>y. y \<notin> set a) (filter (\<lambda>y. y \<noteq> n) ?rest)"
      using False by (simp del: filter_filter)
    ultimately show ?thesis using Cons.IH [of "a @ [n]"] by (simp only: append_assoc append.simps)
  qed
qed

lemma foldl_intern_pid:
  "foldl intern_pid arr ps
     = arr @ map (\<lambda>p. p\<lparr>RequestId := 0\<rparr>)
               (filter (\<lambda>p. pidKey p \<notin> pidKey ` set arr) (first_by pidKey (present ps)))"
proof (induction ps arbitrary: arr)
  case Nil
  show ?case by (simp add: present_def)
next
  case (Cons po ps)
  let ?rest = "first_by pidKey (present ps)"
  show ?case
  proof (cases po)
    case None
    with Cons.IH [of arr] show ?thesis by (simp add: intern_pid_def present_def)
  next
    case (Some p)
    then have pres: "present (po # ps) = p # present ps" by (simp add: present_def)
    show ?thesis
    proof (cases "pidKey p \<in> pidKey ` set arr")
      case True
      then have "filter (\<lambda>y. pidKey y \<notin> pidKey ` set arr) (filter (\<lambda>y. pidKey y \<noteq> pidKey p) ?rest)
               = filter (\<lambda>y. pidKey y \<notin> pidKey ` set arr) ?rest"
        by (intro filter_absorb) auto
      moreover have "foldl intern_pid arr (po # ps) = foldl intern_pid arr ps"
        using True Some by (simp add: intern_pid_def)
      moreover have "filter (\<lambda>y. pidKey y \<notin> pidKey ` set arr) (first_by pidKey (present (po # ps)))
                 = filter (\<lambda>y. pidKey y \<notin> pidKey ` set arr) (filter (\<lambda>y. pidKey y \<noteq> pidKey p) ?rest)"
        using True unfolding pres by (simp del: filter_filter)
      ultimately show ?thesis using Cons.IH [of arr] by (simp only:)
    next
      case False
      let ?arr' = "arr @ [p\<lparr>RequestId := 0\<rparr>]"
      have "filter (\<lambda>y. pidKey y \<notin> pidKey ` set ?arr') ?rest
          = filter (\<lambda>y. pidKey y \<notin> pidKey ` set arr) (filter (\<lambda>y. pidKey y \<noteq> pidKey p) ?rest)"
        unfolding filter_both by (intro filter_cong) auto
      moreover have "foldl intern_pid arr (po # ps) = foldl intern_pid ?arr' ps"
        using False Some by (simp add: intern_pid_def)
      moreover have "filter (\<lambda>y. pidKey y \<notin> pidKey ` set arr) (first_by pidKey (present (po # ps)))
                 = p # filter (\<lambda>y. pidKey y \<notin> pidKey ` set arr) (filter (\<lambda>y. pidKey y \<noteq> pidKey p) ?rest)"
        using False unfolding pres by (simp del: filter_filter)
      ultimately show ?thesis using Cons.IH [of ?arr']
        by (simp only: append_assoc append.simps list.map)
    qed
  qed
qed

lemma range_loop_tables:
  "range_loop ser i msg L = Completed L' \<Longrightarrow> locals_inv L \<Longrightarrow>
     msg = map PtrRemoteDeliver (deliveries msg) \<and>
     typeNamesArr L' = foldl intern_name (typeNamesArr L)
        (present (map (type_name ser (serializerID L)) (deliveries msg))) \<and>
     length (present (map (type_name ser (serializerID L)) (deliveries msg))) = length msg \<and>
     targetNamesArr L' = foldl intern_pid (targetNamesArr L) (map target (deliveries msg)) \<and>
     senderNamesArr L' = foldl intern_pid (senderNamesArr L) (map sender (deliveries msg))"
proof (induction ser i msg L rule: range_loop.induct)
  case (5 ser i rd rest L)
  from "5.prems"(1) obtain L1 where
    step: "deliver_step ser i rd L = Inr L1" and rest: "range_loop ser (Suc i) rest L1 = Completed L'"
    by (auto split: sum.splits)
  note d = deliver_step_Inr [OF step "5.prems"(2)]
  from d(8) obtain b tn where tn: "ser (message rd) (serializerID L) = Inr (b, tn)"
    "typeNamesArr L1 = intern_name (typeNamesArr L) tn" by blast
  from "5.IH" [OF step rest d(1)] d(2,9,10) tn show ?case
    by (simp add: present_def type_name_def)
qed (simp_all add: present_def)

lemma range_loop_total:
  "\<forall>x\<in>set msg. \<exists>rd b tn. x = PtrRemoteDeliver rd \<and> ser (message rd) (serializerID L) = Inr (b, tn) \<Longrightarrow>
   i + length msg \<le> length (envelopes L) \<Longrightarrow>
   \<exists>L'. range_loop ser i msg L = Completed L'"
proof (induction msg arbitrary: i L)
  case Nil
  show ?case by simp
next
  case (Cons x rest)
  from Cons.prems(1) obtain rd b tn where x: "x = PtrRemoteDeliver rd"
    and s: "ser (message rd) (serializerID L) = Inr (b, tn)" by auto
  from Cons.prems(2) have i: "i < length (envelopes L)" by simp
  have "\<exists>L1. deliver_step ser i rd L = Inr L1 \<and> serializerID L1 = serializerID L
          \<and> length (envelopes L1) = length (envelopes L)"
    using s i by (simp add: deliver_step_def Let_def split: prod.splits)
  then obtain L1 where step: "deliver_step ser i rd L = Inr L1"
    and keep: "serializerID L1 = serializerID L" "length (envelopes L1) = length (envelopes L)"
    by blast
  from Cons.prems keep have "\<exists>L'. range_loop ser (Suc i) rest L1 = Completed L'"
    by (intro Cons.IH) auto
  with x step show ?case by simp
qed

lemma locals_inv_initial: "locals_inv (initial_locals n)"
  by (simp add: locals_inv_def initial_locals_def pid_inv_def table_inv_def)

lemma assemble_Completed:
  assumes "assemble ser msg = Completed L"
  shows "length (envelopes L) = length msg"
    and "serializerID L = 0"
    and "locals_inv L"
    and "msg = map PtrRemoteDeliver (deliveries msg)"
    and "typeNamesArr L = first_by (\<lambda>n. n) (type_names ser msg)"
    and "length (type_names ser msg) = length msg"
    and "targetNamesArr L = map (\<lambda>p. p\<lparr>RequestId := 0\<rparr>) (first_by pidKey (targets_of msg))"
    and "senderNamesArr L = map (\<lambda>p. p\<lparr>RequestId := 0\<rparr>) (first_by pidKey (senders_of msg))"
proof -
  let ?L0 = "initial_locals (length msg)"
  from assms have r: "range_loop ser 0 msg ?L0 = Completed L" by (simp add: assemble_def)
  note f = range_loop_frame [OF r locals_inv_initial]
  note t = range_loop_tables [OF r locals_inv_initial]
  have z: "serializerID ?L0 = 0" "typeNamesArr ?L0 = []" "targetNamesArr ?L0 = []"
    "senderNamesArr ?L0 = []" "length (envelopes ?L0) = length msg"
    by (simp_all add: initial_locals_def)
  show "length (envelopes L) = length msg" using f z by simp
  show "serializerID L = 0" using f z by simp
  show "locals_inv L" using f by simp
  show "msg = map PtrRemoteDeliver (deliveries msg)" using t by simp
  show "typeNamesArr L = first_by (\<lambda>n. n) (type_names ser msg)"
    using t z by (simp add: foldl_intern_name type_names_def)
  show "length (type_names ser msg) = length msg"
    using t z by (simp add: type_names_def)
  show "targetNamesArr L = map (\<lambda>p. p\<lparr>RequestId := 0\<rparr>) (first_by pidKey (targets_of msg))"
    using t z by (simp add: foldl_intern_pid targets_of_def)
  show "senderNamesArr L = map (\<lambda>p. p\<lparr>RequestId := 0\<rparr>) (first_by pidKey (senders_of msg))"
    using t z by (simp add: foldl_intern_pid senders_of_def)
qed

lemma assemble_envelope:
  assumes "assemble ser msg = Completed L" "i < length msg"
  shows "\<exists>rd e. msg ! i = PtrRemoteDeliver rd \<and> envelopes L ! i = Some e \<and>
           envelope_for ser 0 rd (typeNamesArr L) (targetNamesArr L) (senderNamesArr L) e"
proof -
  from assms have r: "range_loop ser 0 msg (initial_locals (length msg)) = Completed L"
    by (simp add: assemble_def)
  from range_loop_envelopes [OF r locals_inv_initial assms(2)] show ?thesis
    by (simp add: initial_locals_def)
qed

lemma serializes_D:
  "serializes ser x \<Longrightarrow> \<exists>rd b tn. x = PtrRemoteDeliver rd \<and> ser (message rd) 0 = Inr (b, tn)"
proof -
  assume s: "serializes ser x"
  then obtain rd where x: "x = PtrRemoteDeliver rd"
    by (cases x) (simp_all add: serializes_def)
  with s obtain r where "ser (message rd) 0 = Inr r"
    by (cases "ser (message rd) 0") (simp_all add: serializes_def)
  with x show ?thesis by (cases r) simp
qed

lemma assemble_total:
  assumes "\<forall>x\<in>set msg. serializes ser x"
  shows "\<exists>L. assemble ser msg = Completed L"
proof -
  let ?L = "initial_locals (length msg)"
  have "\<forall>x\<in>set msg. \<exists>rd b tn. x = PtrRemoteDeliver rd \<and>
          ser (message rd) (serializerID ?L) = Inr (b, tn)"
    using assms serializes_D [of ser] by (simp add: initial_locals_def)
  from range_loop_total [where i = 0 and L = ?L and msg = msg and ser = ser, OF this]
  show ?thesis
    by (simp add: assemble_def initial_locals_def)
qed

lemma length_first_by: "length (first_by f xs) \<le> length xs"
proof (induction xs)
  case Nil
  show ?case by simp
next
  case (Cons x xs)
  have "length (filter (\<lambda>y. f y \<noteq> f x) (first_by f xs)) \<le> length (first_by f xs)"
    by (rule length_filter_le)
  from this Cons.IH have "length (filter (\<lambda>y. f y \<noteq> f x) (first_by f xs)) \<le> length xs"
    by (rule le_trans)
  then show ?case by simp
qed







lemma type_names_nth:
  "\<forall>x\<in>set msg. serializes ser x \<Longrightarrow> i < length msg \<Longrightarrow> msg ! i = PtrRemoteDeliver rd \<Longrightarrow>
     ser (message rd) 0 = Inr (b, tn) \<Longrightarrow> type_names ser msg ! i = tn"
proof (induction msg arbitrary: i)
  case Nil
  then show ?case by simp
next
  case (Cons x rest)
  from Cons.prems(1) have "serializes ser x" by simp
  from serializes_D [OF this] obtain rd0 b0 tn0 where
    x: "x = PtrRemoteDeliver rd0" "ser (message rd0) 0 = Inr (b0, tn0)"
    by blast
  then have hd: "type_names ser (x # rest) = tn0 # type_names ser rest"
    by (simp add: type_names_def present_def type_name_def)
  show ?case
  proof (cases i)
    case 0
    with Cons.prems x hd show ?thesis by simp
  next
    case (Suc i')
    with Cons.prems have "type_names ser rest ! i' = tn" by (intro Cons.IH) simp_all
    with hd Suc show ?thesis by simp
  qed
qed

lemma sint_of_nat_small:
  "j < 2 ^ 31 \<Longrightarrow> sint (of_nat j :: int32) = int j"
  by (simp add: signed_of_nat signed_take_bit_int_eq_self)









lemma deliver_step_zero:
  "serializerID L = 0 \<Longrightarrow> deliver_step ser i rd L = deliver_step (\<lambda>m sid. ser m 0) i rd L"
  by (simp add: deliver_step_def)

lemma deliver_step_serializerID:
  "deliver_step ser i rd L = Inr L' \<Longrightarrow> serializerID L' = serializerID L"
  by (auto simp: deliver_step_def Let_def split: sum.splits prod.splits if_splits)

lemma range_loop_zero:
  "serializerID L = 0 \<Longrightarrow> range_loop ser i msg L = range_loop (\<lambda>m sid. ser m 0) i msg L"
proof (induction msg arbitrary: i L)
  case Nil
  show ?case by simp
next
  case (Cons x rest)
  show ?case
  proof (cases x)
    case (PtrRemoteDeliver rd)
    from Cons.prems have z: "deliver_step (\<lambda>m sid. ser m 0) i rd L = deliver_step ser i rd L"
      by (simp add: deliver_step_zero [of L ser i rd])
    show ?thesis
    proof (cases "deliver_step ser i rd L")
      case (Inl p)
      with z PtrRemoteDeliver show ?thesis by simp
    next
      case (Inr L')
      with Cons.prems have "serializerID L' = 0" by (simp add: deliver_step_serializerID)
      from Cons.IH [OF this] have "range_loop ser (Suc i) rest L' = range_loop (\<lambda>m sid. ser m 0) (Suc i) rest L'" .
      with z Inr PtrRemoteDeliver show ?thesis by simp
    qed
  qed simp_all
qed

lemma assemble_zero: "assemble ser msg = assemble (\<lambda>m sid. ser m 0) msg"
  unfolding assemble_def by (rule range_loop_zero) (simp add: initial_locals_def)

lemma sendEnvelopes_Sent:
  assumes "Sent s m \<in> set (snd (sendEnvelopes ser g state msg ctx))"
  shows "\<exists>L. assemble ser msg = Completed L \<and> stream state = Some s \<and>
           m = RemoteMessage_MessageBatch (batch_of L)"
  using assms
  by (auto simp: sendEnvelopes_def Let_def split: loop_exit.splits option.splits)

lemma batch_of_simps [simp]:
  "TypeNames (batch_of L) = typeNamesArr L" "Targets (batch_of L) = targetNamesArr L"
  "Senders (batch_of L) = senderNamesArr L" "Envelopes (batch_of L) = envelopes L"
  by (simp_all add: batch_of_def)

lemma sendEnvelopes_sends:
  assumes "\<forall>x\<in>set msg. serializes ser x" and "stream state = Some s"
  shows "\<exists>L es. assemble ser msg = Completed L \<and>
           snd (sendEnvelopes ser g state msg ctx) = Sent s (RemoteMessage_MessageBatch (batch_of L)) # es"
proof -
  from assemble_total [OF assms(1)] obtain L where L: "assemble ser msg = Completed L" ..
  with assms(2) have "\<exists>es. snd (sendEnvelopes ser g state msg ctx) =
      Sent s (RemoteMessage_MessageBatch (batch_of L)) # es"
    by (cases "Send g s (RemoteMessage_MessageBatch (batch_of L))") (simp_all add: sendEnvelopes_def)
  with L show ?thesis by blast
qed


lemma scenario_A_serializes: "\<forall>x\<in>set scenario_A. serializes name_serializer x"
  by (simp add: scenario_A_def serializes_def name_serializer_def)

lemma sendEnvelopes_scenario_A:
  "sendEnvelopes name_serializer accepting_grpc writer_on_stream_7 scenario_A (batch_ctx scenario_A) =
     (Returns (), [Sent 7 (RemoteMessage_MessageBatch scenario_A_batch)])"
  by (simp add: sendEnvelopes_def assemble_def scenario_A_def initial_locals_def deliver_step_def
      name_serializer_def addToLookup_def addToPidLookup_def pidKey_def batch_of_def T1_def S1_def
      accepting_grpc_def writer_on_stream_7_def batch_ctx_def scenario_A_batch_def)

lemma monitor_loop_append:
  "fst (monitor_loop addr pre published) = StillLooping \<Longrightarrow>
     monitor_loop addr (pre @ rest) published = monitor_loop addr rest (snd (monitor_loop addr pre published))"
  by (induction addr pre published rule: monitor_loop.induct) simp_all

lemma monitor_loop_error:
  "err \<noteq> EOF \<Longrightarrow> monitor_loop addr (Inl err # rest) published =
     (Returned, published @ [EndpointTerminatedEvent addr])"
  by (cases err) simp_all

lemma range_loop_terminated:
  "t \<in> set msg \<Longrightarrow> isTerminated t \<Longrightarrow> range_loop ser i msg L \<noteq> Completed L'"
proof (induction ser i msg L rule: range_loop.induct)
  case (5 ser i rd rest L)
  from "5.prems" have "t \<in> set rest" by (auto simp: isTerminated_def)
  with "5.IH" "5.prems"(2) show ?case by (auto split: sum.splits)
qed simp_all

lemma range_loop_stops:
  "\<forall>x\<in>set pre. \<exists>rd b tn. x = PtrRemoteDeliver rd \<and> ser (message rd) (serializerID L) = Inr (b, tn) \<Longrightarrow>
   isTerminated t \<Longrightarrow> i + length pre \<le> length (envelopes L) \<Longrightarrow>
   range_loop ser i (pre @ t # post) L = StopRequested"
proof (induction pre arbitrary: i L)
  case Nil
  then show ?case by (cases t) (simp_all add: isTerminated_def)
next
  case (Cons x rest)
  from Cons.prems(1) obtain rd b tn where x: "x = PtrRemoteDeliver rd"
    and s: "ser (message rd) (serializerID L) = Inr (b, tn)" by auto
  from Cons.prems(3) have i: "i < length (envelopes L)" by simp
  have "\<exists>L1. deliver_step ser i rd L = Inr L1 \<and> serializerID L1 = serializerID L
          \<and> length (envelopes L1) = length (envelopes L)"
    using s i by (simp add: deliver_step_def Let_def split: prod.splits)
  then obtain L1 where step: "deliver_step ser i rd L = Inr L1"
    and keep: "serializerID L1 = serializerID L" "length (envelopes L1) = length (envelopes L)"
    by blast
  from Cons.prems keep have "range_loop ser (Suc i) (rest @ t # post) L1 = StopRequested"
    by (intro Cons.IH) auto
  with x step show ?case by simp
qed

lemma assemble_stops:
  assumes "list_all (serializes ser) pre" "isTerminated t"
  shows "assemble ser (pre @ t # post) = StopRequested"
proof -
  let ?L = "initial_locals (length (pre @ t # post))"
  have "\<forall>x\<in>set pre. \<exists>rd b tn. x = PtrRemoteDeliver rd \<and> ser (message rd) (serializerID ?L) = Inr (b, tn)"
    using assms(1) serializes_D [of ser] by (simp add: list_all_iff initial_locals_def)
  from range_loop_stops [where L = ?L and i = 0 and ser = ser and pre = pre and t = t and post = post, OF this assms(2)] show ?thesis
    by (simp add: assemble_def initial_locals_def)
qed

lemma Receive_scenario_A_rejected:
  "Receive name_serializer rejecting_grpc writer_on_stream_7 (batch_ctx scenario_A) =
     (Panics (PanicString ''restart it''), writer_on_stream_7,
      [Sent 7 (RemoteMessage_MessageBatch scenario_A_batch), Stash (Batch scenario_A)])"
  by (simp add: Receive_def sendEnvelopes_def assemble_def scenario_A_def initial_locals_def deliver_step_def
      name_serializer_def addToLookup_def addToPidLookup_def pidKey_def batch_of_def T1_def S1_def
      rejecting_grpc_def writer_on_stream_7_def batch_ctx_def scenario_A_batch_def)

lemma isConnectResponse_iff: "isConnectResponse m \<longleftrightarrow> m = RemoteMessage_ConnectResponse"
  by (cases m) (simp_all add: isConnectResponse_def)

lemma initializeInternal_success:
  assumes "handshake_succeeds g state c s"
  shows "initializeInternal g state =
           (Returns None, state\<lparr>conn := Some c, stream := Some s\<rparr>,
            [Dialed (address state), Connected c, Opened s, Sent s (connect_request state),
             Received s (Inr RemoteMessage_ConnectResponse), Spawned s,
             Published (EndpointConnectedEvent (address state))])"
  using assms
  by (simp add: handshake_succeeds_def initializeInternal_def connect_request_def isConnectResponse_iff)

lemma initializeInternal_cases:
  assumes "initializeInternal g state = (out, state', es)"
  shows "(\<exists>c s. handshake_succeeds g state c s) \<or>
         (out \<noteq> Returns None \<and> (\<forall>e. Published e \<notin> set es) \<and> (\<forall>s. Spawned s \<notin> set es) \<and>
          (\<forall>s m. Received s (Inr m) \<in> set es \<longrightarrow> m \<noteq> RemoteMessage_ConnectResponse) \<and>
          (\<forall>s b. Sent s (RemoteMessage_MessageBatch b) \<notin> set es))"
proof (cases "Dial g (address state)")
  case (Inl err)
  with assms show ?thesis by (auto simp: initializeInternal_def)
next
  case c: (Inr c)
  show ?thesis
  proof (cases "OpenStream g c")
    case (Inl err)
    with c assms show ?thesis by (auto simp: initializeInternal_def)
  next
    case s: (Inr s)
    show ?thesis
    proof (cases "Send g s (connect_request state)")
      case (Some err)
      with c s assms show ?thesis
        by (auto simp: initializeInternal_def connect_request_def)
    next
      case None
      show ?thesis
      proof (cases "Recv g s")
        case n: None
        with c s None assms show ?thesis
          by (auto simp: initializeInternal_def connect_request_def)
      next
        case (Some r)
        show ?thesis
        proof (cases r)
          case (Inl err)
          with Some c s None assms show ?thesis
            by (auto simp: initializeInternal_def connect_request_def)
        next
          case (Inr m)
          show ?thesis
          proof (cases "m = RemoteMessage_ConnectResponse")
            case True
            with Inr Some c s None have "handshake_succeeds g state c s"
              by (simp add: handshake_succeeds_def)
            then show ?thesis by blast
          next
            case False
            with Inr Some c s None assms show ?thesis
              by (auto simp: initializeInternal_def connect_request_def isConnectResponse_iff)
          qed
        qed
      qed
    qed
  qed
qed














lemma run_refused_then_batch:
  "run (spawn ''sys1'' ''node1:8090'' ''node2:8090'') refused_then_batch =
     \<lparr>actor = writer_on_stream_7, phase = Failed,
      trace = [Dialed ''node2:8090'', Connected 1, Opened 7,
       Sent 7 (RemoteMessage_ConnectRequest ''sys1'' ''node1:8090''),
       Received 7 (Inr RemoteMessage_Other), Sleep 2]\<rparr>"
proof -
  have a: "Receive name_serializer wrong_variant_grpc fresh_writer started_ctx =
     (Panics (PanicError InvalidConnectResponse), writer_on_stream_7,
      [Dialed ''node2:8090'', Connected 1, Opened 7,
       Sent 7 (RemoteMessage_ConnectRequest ''sys1'' ''node1:8090''),
       Received 7 (Inr RemoteMessage_Other), Sleep 2])"
    by (simp add: Receive_def started_ctx_def initialize_def initializeInternal_def wrong_variant_grpc_def
        fresh_writer_def endpointWriterProducer_def writer_on_stream_7_def isConnectResponse_def)
  show ?thesis
    by (simp add: run_def refused_then_batch_def spawn_def a [unfolded fresh_writer_def])
qed

lemma monitor_loop_EOF_prefix:
  "monitor_loop addr (replicate n (Inl EOF) @ reads) published = monitor_loop addr reads published"
  by (induction n) simp_all



lemma initializeInternal_refused:
  "initializeInternal wrong_variant_grpc fresh_writer =
     (Returns (Some InvalidConnectResponse), writer_on_stream_7,
      [Dialed ''node2:8090'', Connected 1, Opened 7,
       Sent 7 (RemoteMessage_ConnectRequest ''sys1'' ''node1:8090''),
       Received 7 (Inr RemoteMessage_Other)])"
  by (simp add: initializeInternal_def wrong_variant_grpc_def fresh_writer_def endpointWriterProducer_def
      writer_on_stream_7_def isConnectResponse_def)

section \<open>The claims\<close>

subsection \<open>C1: end-of-file in the monitor loop\<close>

text \<open>
  C1. The claim: when a read of the monitor loop returns end-of-file, the loop exits
  without publishing. The code publishes nothing for that read, but it does not exit:
  after any number of end-of-file reads the goroutine is still in the loop, and a later
  read is handled as before (a message read after the end-of-file still publishes a
  termination event).
\<close>

theorem monitor_loop_EOF_does_not_exit:
  "monitor_loop addr (replicate n (Inl EOF)) published = (StillLooping, published)
   \<and> monitor_loop addr [Inl EOF] [] = (StillLooping, [])
   \<and> monitor_loop addr [Inl EOF, Inr m] [] = (StillLooping, [EndpointTerminatedEvent addr])"
  using monitor_loop_EOF_prefix [of addr n "[]" published] by simp

subsection \<open>C2: index 0 is the absent reference\<close>



subsection \<open>C3: one table entry for each actor\<close>



subsection \<open>C4: envelope order and the type-name table\<close>

text \<open>
  C4. For every batch of deliveries whose payloads serialize (so no termination event
  is in it), a writer that holds a stream sends, in \<^verbatim>\<open>sendEnvelopes\<close>, a batch with
  as many envelopes as deliveries;
  envelope \<open>i\<close> is built from delivery \<open>i\<close> (its bytes, header and request ids); the
  type-name table is the list of the distinct type names in first-seen order; and the
  type index of an envelope is the \<^verbatim>\<open>int32\<close> of the position of its type name in that
  table (read as a signed number it is that position, for batches of at most \<open>2 ^ 31\<close>
  deliveries).
\<close>

theorem envelopes_in_input_order:
  assumes "\<forall>x\<in>set msg. serializes ser x" and "stream state = Some s"
  shows "\<exists>bt es.
           snd (sendEnvelopes ser g state msg ctx) = Sent s (RemoteMessage_MessageBatch bt) # es \<and>
           length (Envelopes bt) = length msg \<and>
           TypeNames bt = first_by (\<lambda>n. n) (type_names ser msg) \<and>
           distinct (TypeNames bt) \<and>
           (\<forall>i<length msg. \<exists>rd b tn e.
               msg ! i = PtrRemoteDeliver rd \<and> ser (message rd) 0 = Inr (b, tn) \<and>
               Envelopes bt ! i = Some e \<and> built_from rd b e \<and>
               type_names ser msg ! i = tn \<and>
               (\<exists>j<length (TypeNames bt). TypeNames bt ! j = tn \<and> TypeId e = of_nat j \<and>
                  (length msg \<le> 2 ^ 31 \<longrightarrow> sint (TypeId e) = int j)))"
proof -
  from sendEnvelopes_sends [OF assms(1,2), where g = g and ctx = ctx] obtain L es where
    L: "assemble ser msg = Completed L" and
    sent: "snd (sendEnvelopes ser g state msg ctx) = Sent s (RemoteMessage_MessageBatch (batch_of L)) # es"
    by blast
  note c = assemble_Completed [OF L]
  have d: "distinct (TypeNames (batch_of L))"
    using distinct_map_first_by [of "\<lambda>n. n" "type_names ser msg"] by (simp add: c(5))
  have len: "length (typeNamesArr L) \<le> length msg"
    using length_first_by [of "\<lambda>n. n" "type_names ser msg"] by (simp add: c(5,6))
  have "\<exists>rd b tn e.
      msg ! i = PtrRemoteDeliver rd \<and> ser (message rd) 0 = Inr (b, tn) \<and>
      Envelopes (batch_of L) ! i = Some e \<and> built_from rd b e \<and> type_names ser msg ! i = tn \<and>
      (\<exists>j<length (TypeNames (batch_of L)). TypeNames (batch_of L) ! j = tn \<and> TypeId e = of_nat j \<and>
         (length msg \<le> 2 ^ 31 \<longrightarrow> sint (TypeId e) = int j))"
    if i: "i < length msg" for i
  proof -
    from assemble_envelope [OF L i] obtain rd e where
      m: "msg ! i = PtrRemoteDeliver rd" and e: "envelopes L ! i = Some e"
      and f: "envelope_for ser 0 rd (typeNamesArr L) (targetNamesArr L) (senderNamesArr L) e"
      by blast
    from f obtain b tn j where
      s: "ser (message rd) 0 = Inr (b, tn)" and bf: "built_from rd b e"
      and j: "j < length (typeNamesArr L)" "typeNamesArr L ! j = tn" "TypeId e = of_nat j"
      by (auto simp: envelope_for_def built_from_def)
    have "sint (TypeId e) = int j" if "length msg \<le> 2 ^ 31"
    proof -
      from that j(1) len have "j < 2 ^ 31" by linarith
      then show ?thesis by (simp add: j(3) sint_of_nat_small)
    qed
    with m e s bf j type_names_nth [OF assms(1) i m s] show ?thesis by auto
  qed
  moreover have "length (Envelopes (batch_of L)) = length msg" by (simp add: c(1))
  moreover have "TypeNames (batch_of L) = first_by (\<lambda>n. n) (type_names ser msg)" by (simp add: c(5))
  ultimately show ?thesis using sent d by blast
qed

text \<open>
  A witness for C4: \<open>scenario_A\<close>, whose type names are ping, pong, ping.
\<close>

theorem envelopes_in_input_order_witness:
  "list_all (serializes name_serializer) scenario_A \<and> stream writer_on_stream_7 = Some 7 \<and>
   (\<exists>bt es.
      snd (sendEnvelopes name_serializer accepting_grpc writer_on_stream_7 scenario_A (batch_ctx scenario_A)) =
        Sent 7 (RemoteMessage_MessageBatch bt) # es \<and>
      length (Envelopes bt) = length scenario_A \<and>
      TypeNames bt = first_by (\<lambda>n. n) (type_names name_serializer scenario_A) \<and>
      distinct (TypeNames bt) \<and>
      (\<forall>i<length scenario_A. \<exists>rd b tn e.
          scenario_A ! i = PtrRemoteDeliver rd \<and> name_serializer (message rd) 0 = Inr (b, tn) \<and>
          Envelopes bt ! i = Some e \<and> built_from rd b e \<and>
          type_names name_serializer scenario_A ! i = tn \<and>
          (\<exists>j<length (TypeNames bt). TypeNames bt ! j = tn \<and> TypeId e = of_nat j \<and>
             (length scenario_A \<le> 2 ^ 31 \<longrightarrow> sint (TypeId e) = int j)))) \<and>
   first_by (\<lambda>n. n) (type_names name_serializer scenario_A) = [''ping'', ''pong'']"
proof (intro conjI)
  show "list_all (serializes name_serializer) scenario_A"
    using scenario_A_serializes by (simp add: list_all_iff)
  show str: "stream writer_on_stream_7 = Some 7" by (simp add: writer_on_stream_7_def)
  show "first_by (\<lambda>n. n) (type_names name_serializer scenario_A) = [''ping'', ''pong'']"
    by (simp add: scenario_A_def type_names_def type_name_def present_def name_serializer_def)
  show "\<exists>bt es.
      snd (sendEnvelopes name_serializer accepting_grpc writer_on_stream_7 scenario_A (batch_ctx scenario_A)) =
        Sent 7 (RemoteMessage_MessageBatch bt) # es \<and>
      length (Envelopes bt) = length scenario_A \<and>
      TypeNames bt = first_by (\<lambda>n. n) (type_names name_serializer scenario_A) \<and>
      distinct (TypeNames bt) \<and>
      (\<forall>i<length scenario_A. \<exists>rd b tn e.
          scenario_A ! i = PtrRemoteDeliver rd \<and> name_serializer (message rd) 0 = Inr (b, tn) \<and>
          Envelopes bt ! i = Some e \<and> built_from rd b e \<and>
          type_names name_serializer scenario_A ! i = tn \<and>
          (\<exists>j<length (TypeNames bt). TypeNames bt ! j = tn \<and> TypeId e = of_nat j \<and>
             (length scenario_A \<le> 2 ^ 31 \<longrightarrow> sint (TypeId e) = int j)))"
    by (rule envelopes_in_input_order [OF scenario_A_serializes str])
qed

subsection \<open>C5: what the monitor publishes when the stream ends\<close>

text \<open>
  C5, as amended. While the monitor is still in its loop, a read that fails with an
  error other than end-of-file makes it publish exactly one termination event for its
  address and return, whatever would be read later; a read that reports end-of-file
  publishes nothing.
\<close>

theorem monitor_loop_error_publishes_once:
  assumes "err \<noteq> EOF" and "fst (monitor_loop addr pre published) = StillLooping"
  shows "monitor_loop addr (pre @ Inl err # rest) published =
           (Returned, snd (monitor_loop addr pre published) @ [EndpointTerminatedEvent addr]) \<and>
         snd (monitor_loop addr (pre @ [Inl EOF]) published) = snd (monitor_loop addr pre published)"
  using assms by (simp add: monitor_loop_append monitor_loop_error)

text \<open>
  A witness for C5: an end-of-file read, then a connection reset.
\<close>

theorem monitor_loop_error_publishes_once_witness:
  "TransportError ''connection reset'' \<noteq> EOF \<and>
   fst (monitor_loop ''node2:8090'' [Inl EOF] []) = StillLooping \<and>
   monitor_loop ''node2:8090'' ([Inl EOF] @ Inl (TransportError ''connection reset'') # [Inr RemoteMessage_Other]) [] =
     (Returned, snd (monitor_loop ''node2:8090'' [Inl EOF] []) @ [EndpointTerminatedEvent ''node2:8090''])"
proof -
  have a: "TransportError ''connection reset'' \<noteq> EOF" by simp
  have b: "fst (monitor_loop ''node2:8090'' [Inl EOF] []) = StillLooping" by simp
  from monitor_loop_error_publishes_once [OF a b, of "[Inr RemoteMessage_Other]"] have
    "monitor_loop ''node2:8090'' ([Inl EOF] @ Inl (TransportError ''connection reset'') # [Inr RemoteMessage_Other]) [] =
     (Returned, snd (monitor_loop ''node2:8090'' [Inl EOF] []) @ [EndpointTerminatedEvent ''node2:8090''])"
    by (rule conjunct1)
  with a b show ?thesis by (intro conjI)
qed

text \<open>
  C5 as stated fails: when the peer closes its send side the read reports end-of-file,
  and the monitor publishes no termination event.
\<close>

theorem monitor_loop_EOF_publishes_nothing:
  "monitor_loop ''node2:8090'' [Inl EOF] [] = (StillLooping, [])"
  by simp

subsection \<open>C6: a termination event inside a batch\<close>

text \<open>
  C6, as amended. When a batch holds a termination event, handling it never sends
  anything on the stream; and if every element before that event is a delivery whose
  payload serializes, \<^verbatim>\<open>Receive\<close> requests the stop of the component, once, and
  returns with the state unchanged.
\<close>

theorem terminated_batch_is_not_sent:
  assumes "Message ctx = Batch msg" and "t \<in> set msg" and "isTerminated t"
  shows "(\<forall>s m. Sent s m \<notin> set (snd (snd (Receive ser g state ctx)))) \<and>
         (\<forall>pre post. msg = pre @ t # post \<and> list_all (serializes ser) pre \<longrightarrow>
            Receive ser g state ctx = (Returns (), state, [Stop (Self ctx)]))"
proof (intro conjI allI impI)
  fix s m
  have "assemble ser msg \<noteq> Completed L" for L
    unfolding assemble_def using assms(2,3) by (rule range_loop_terminated)
  then show "Sent s m \<notin> set (snd (snd (Receive ser g state ctx)))"
    using assms(1)
    by (auto simp: Receive_def sendEnvelopes_def split: loop_exit.splits prod.splits)
next
  fix pre post
  assume "msg = pre @ t # post \<and> list_all (serializes ser) pre"
  with assemble_stops [of ser pre t post] assms(3)
  have "assemble ser msg = StopRequested" by simp
  with assms(1) show "Receive ser g state ctx = (Returns (), state, [Stop (Self ctx)])"
    by (simp add: Receive_def sendEnvelopes_def)
qed

text \<open>
  A witness for C6: a termination event between two deliveries.
\<close>

theorem terminated_batch_is_not_sent_witness:
  "Message (batch_ctx terminated_in_the_middle) = Batch terminated_in_the_middle \<and>
   PtrEndpointTerminatedEvent ''node2:8090'' \<in> set terminated_in_the_middle \<and>
   isTerminated (PtrEndpointTerminatedEvent ''node2:8090'' :: string item) \<and>
   Receive name_serializer accepting_grpc writer_on_stream_7 (batch_ctx terminated_in_the_middle) =
     (Returns (), writer_on_stream_7, [Stop (Self (batch_ctx terminated_in_the_middle))])"
proof -
  let ?t = "PtrEndpointTerminatedEvent ''node2:8090'' :: string item"
  have a: "Message (batch_ctx terminated_in_the_middle) = Batch terminated_in_the_middle"
    by (simp add: batch_ctx_def)
  have b: "?t \<in> set terminated_in_the_middle" by (simp add: terminated_in_the_middle_def)
  have c: "isTerminated ?t" by (simp add: isTerminated_def)
  have d: "terminated_in_the_middle =
      [PtrRemoteDeliver \<lparr>header = None, message = ''ping'', target = Some (T1 5), sender = Some S1\<rparr>]
      @ ?t # [PtrRemoteDeliver \<lparr>header = None, message = ''pong'', target = Some (T1 9), sender = None\<rparr>]
    \<and> list_all (serializes name_serializer)
      [PtrRemoteDeliver \<lparr>header = None, message = ''ping'', target = Some (T1 5), sender = Some S1\<rparr>]"
    by (simp add: terminated_in_the_middle_def serializes_def name_serializer_def)
  from terminated_batch_is_not_sent [OF a b c, of name_serializer accepting_grpc writer_on_stream_7] d
  have "Receive name_serializer accepting_grpc writer_on_stream_7 (batch_ctx terminated_in_the_middle) =
     (Returns (), writer_on_stream_7, [Stop (Self (batch_ctx terminated_in_the_middle))])"
    by blast
  with a b c show ?thesis by (intro conjI)
qed

text \<open>
  C6 as stated fails: the loop handles the elements in order, so a delivery before the
  termination event is serialized first; when that fails the component panics, and no
  stop is requested.
\<close>

theorem terminated_after_failed_delivery:
  "Receive name_serializer accepting_grpc writer_on_stream_7 (batch_ctx terminated_after_unserializable) =
     (Panics (PanicError (SerializeError ''empty'')), writer_on_stream_7, [])"
  by (simp add: Receive_def sendEnvelopes_def assemble_def terminated_after_unserializable_def
      batch_ctx_def deliver_step_def initial_locals_def name_serializer_def)

subsection \<open>C7: connect and its effects\<close>

text \<open>
  C7. A connect of which a step fails returns the error of that step (for a handshake
  response of another variant, "invalid connect response"), publishes no event and starts
  no monitor; the connected event is published only when every step has succeeded, as
  the last effect. The connection and the stream opened before the failing step stay in
  the fields of the struct, where \<^verbatim>\<open>closeClientConn\<close> finds them, and no sender
  reaches them: \<^verbatim>\<open>initialize\<close> turns the error into a panic after its pause, so
  handling the start message fails the component; the failed instance handles no further
  message, and the instance that takes its place at a restart has no connection and no
  stream.
\<close>

theorem failed_connect_exposes_nothing:
  fixes es :: "'m effect list"
  assumes "initializeInternal g state = (out, state', es)"
  shows "(\<forall>err. Dial g (address state) = Inl err \<longrightarrow>
            out = Returns (Some err) \<and> state' = state \<and> es = [Dialed (address state)]) \<and>
         (\<forall>c err. Dial g (address state) = Inr c \<and> OpenStream g c = Inl err \<longrightarrow>
            out = Returns (Some err) \<and> state' = state\<lparr>conn := Some c\<rparr> \<and>
            es = [Dialed (address state), Connected c]) \<and>
         (\<forall>c s err. Dial g (address state) = Inr c \<and> OpenStream g c = Inr s \<and>
            Send g s (connect_request state) = Some err \<longrightarrow>
            out = Returns (Some err) \<and> state' = state\<lparr>conn := Some c, stream := Some s\<rparr> \<and>
            es = [Dialed (address state), Connected c, Opened s, Sent s (connect_request state)]) \<and>
         (\<forall>c s err. Dial g (address state) = Inr c \<and> OpenStream g c = Inr s \<and>
            Send g s (connect_request state) = None \<and> Recv g s = Some (Inl err) \<longrightarrow>
            out = Returns (Some err) \<and> state' = state\<lparr>conn := Some c, stream := Some s\<rparr> \<and>
            es = [Dialed (address state), Connected c, Opened s, Sent s (connect_request state),
                  Received s (Inl err)]) \<and>
         (\<forall>c s m. Dial g (address state) = Inr c \<and> OpenStream g c = Inr s \<and>
            Send g s (connect_request state) = None \<and> Recv g s = Some (Inr m) \<and>
            m \<noteq> RemoteMessage_ConnectResponse \<longrightarrow>
            out = Returns (Some InvalidConnectResponse) \<and>
            state' = state\<lparr>conn := Some c, stream := Some s\<rparr> \<and>
            es = [Dialed (address state), Connected c, Opened s, Sent s (connect_request state),
                  Received s (Inr m)]) \<and>
         (\<forall>c s. handshake_succeeds g state c s \<longrightarrow>
            out = Returns None \<and> state' = state\<lparr>conn := Some c, stream := Some s\<rparr> \<and>
            es = [Dialed (address state), Connected c, Opened s, Sent s (connect_request state),
                  Received s (Inr RemoteMessage_ConnectResponse), Spawned s,
                  Published (EndpointConnectedEvent (address state))]) \<and>
         (out = Returns None \<longleftrightarrow> (\<exists>c s. handshake_succeeds g state c s)) \<and>
         (out \<noteq> Returns None \<longrightarrow> (\<forall>e. Published e \<notin> set es) \<and> (\<forall>s. Spawned s \<notin> set es)) \<and>
         (\<forall>err (ser :: 'm serializer) ctx. out = Returns (Some err) \<and> Message ctx = Started \<longrightarrow>
            Receive ser g state ctx = (Panics (PanicError err), state', es @ [Sleep 2])) \<and>
         (\<forall>err (ser :: 'm serializer) ctx c.
            out = Returns (Some err) \<and> Message ctx = Started \<and> phase c = Running \<and> actor c = state \<longrightarrow>
            step c (Deliver ser g ctx) =
              \<lparr>actor = state', phase = Failed, trace = trace c @ es @ [Sleep 2]\<rparr> \<and>
            (\<forall>ser' g' ctx'. step (step c (Deliver ser g ctx)) (Deliver ser' g' ctx') =
               step c (Deliver ser g ctx)) \<and>
            conn (actor (step (step c (Deliver ser g ctx)) Restart)) = None \<and>
            stream (actor (step (step c (Deliver ser g ctx)) Restart)) = None)"
proof -
  have dial: "out = Returns (Some err) \<and> state' = state \<and> es = [Dialed (address state)]"
    if "Dial g (address state) = Inl err" for err
    using that assms by (auto simp: initializeInternal_def)
  have opens: "out = Returns (Some err) \<and> state' = state\<lparr>conn := Some c\<rparr> \<and>
            es = [Dialed (address state), Connected c]"
    if "Dial g (address state) = Inr c \<and> OpenStream g c = Inl err" for c err
    using that assms by (auto simp: initializeInternal_def)
  have sends: "out = Returns (Some err) \<and> state' = state\<lparr>conn := Some c, stream := Some s\<rparr> \<and>
            es = [Dialed (address state), Connected c, Opened s, Sent s (connect_request state)]"
    if "Dial g (address state) = Inr c \<and> OpenStream g c = Inr s \<and>
            Send g s (connect_request state) = Some err" for c s err
    using that assms by (auto simp: initializeInternal_def connect_request_def)
  have recvs: "out = Returns (Some err) \<and> state' = state\<lparr>conn := Some c, stream := Some s\<rparr> \<and>
            es = [Dialed (address state), Connected c, Opened s, Sent s (connect_request state),
                  Received s (Inl err)]"
    if "Dial g (address state) = Inr c \<and> OpenStream g c = Inr s \<and>
            Send g s (connect_request state) = None \<and> Recv g s = Some (Inl err)" for c s err
    using that assms by (auto simp: initializeInternal_def connect_request_def)
  have variant: "out = Returns (Some InvalidConnectResponse) \<and>
            state' = state\<lparr>conn := Some c, stream := Some s\<rparr> \<and>
            es = [Dialed (address state), Connected c, Opened s, Sent s (connect_request state),
                  Received s (Inr m)]"
    if "Dial g (address state) = Inr c \<and> OpenStream g c = Inr s \<and>
            Send g s (connect_request state) = None \<and> Recv g s = Some (Inr m) \<and>
            m \<noteq> RemoteMessage_ConnectResponse" for c s m
    using that assms by (auto simp: initializeInternal_def connect_request_def isConnectResponse_iff)
  have full: "out = Returns None \<and> state' = state\<lparr>conn := Some c, stream := Some s\<rparr> \<and>
            es = [Dialed (address state), Connected c, Opened s, Sent s (connect_request state),
                  Received s (Inr RemoteMessage_ConnectResponse), Spawned s,
                  Published (EndpointConnectedEvent (address state))]"
    if "handshake_succeeds g state c s" for c s
    using initializeInternal_success [OF that, where ?'a = 'm] assms by auto
  have iff: "out = Returns None \<longleftrightarrow> (\<exists>c s. handshake_succeeds g state c s)"
    using initializeInternal_cases [OF assms] full by blast
  have quiet: "(\<forall>e. Published e \<notin> set es) \<and> (\<forall>s. Spawned s \<notin> set es)" if "out \<noteq> Returns None"
    using initializeInternal_cases [OF assms] full that by blast
  have panics: "Receive ser g state ctx = (Panics (PanicError err), state', es @ [Sleep 2])"
    if "out = Returns (Some err) \<and> Message ctx = Started"
    for err and ser :: "'m serializer" and ctx
    using that assms by (auto simp: Receive_def initialize_def)
  have fails: "step c (Deliver ser g ctx) =
              \<lparr>actor = state', phase = Failed, trace = trace c @ es @ [Sleep 2]\<rparr> \<and>
            (\<forall>ser' g' ctx'. step (step c (Deliver ser g ctx)) (Deliver ser' g' ctx') =
               step c (Deliver ser g ctx)) \<and>
            conn (actor (step (step c (Deliver ser g ctx)) Restart)) = None \<and>
            stream (actor (step (step c (Deliver ser g ctx)) Restart)) = None"
    if h: "out = Returns (Some err) \<and> Message ctx = Started \<and> phase c = Running \<and> actor c = state"
    for err and ser :: "'m serializer" and ctx c
  proof -
    from h panics [of err ctx ser]
    have "Receive ser g (actor c) ctx = (Panics (PanicError err), state', es @ [Sleep 2])" by simp
    with h have "step c (Deliver ser g ctx) =
        \<lparr>actor = state', phase = Failed, trace = trace c @ es @ [Sleep 2]\<rparr>" by simp
    then show ?thesis by (simp add: endpointWriterProducer_def)
  qed
  from dial have 1: "\<forall>err. Dial g (address state) = Inl err \<longrightarrow>
            out = Returns (Some err) \<and> state' = state \<and> es = [Dialed (address state)]"
    by blast
  from opens have 2: "\<forall>c err. Dial g (address state) = Inr c \<and> OpenStream g c = Inl err \<longrightarrow>
            out = Returns (Some err) \<and> state' = state\<lparr>conn := Some c\<rparr> \<and>
            es = [Dialed (address state), Connected c]"
    by blast
  from sends have 3: "\<forall>c s err. Dial g (address state) = Inr c \<and> OpenStream g c = Inr s \<and>
            Send g s (connect_request state) = Some err \<longrightarrow>
            out = Returns (Some err) \<and> state' = state\<lparr>conn := Some c, stream := Some s\<rparr> \<and>
            es = [Dialed (address state), Connected c, Opened s, Sent s (connect_request state)]"
    by blast
  from recvs have 4: "\<forall>c s err. Dial g (address state) = Inr c \<and> OpenStream g c = Inr s \<and>
            Send g s (connect_request state) = None \<and> Recv g s = Some (Inl err) \<longrightarrow>
            out = Returns (Some err) \<and> state' = state\<lparr>conn := Some c, stream := Some s\<rparr> \<and>
            es = [Dialed (address state), Connected c, Opened s, Sent s (connect_request state),
                  Received s (Inl err)]"
    by blast
  from variant have 5: "\<forall>c s m. Dial g (address state) = Inr c \<and> OpenStream g c = Inr s \<and>
            Send g s (connect_request state) = None \<and> Recv g s = Some (Inr m) \<and>
            m \<noteq> RemoteMessage_ConnectResponse \<longrightarrow>
            out = Returns (Some InvalidConnectResponse) \<and>
            state' = state\<lparr>conn := Some c, stream := Some s\<rparr> \<and>
            es = [Dialed (address state), Connected c, Opened s, Sent s (connect_request state),
                  Received s (Inr m)]"
    by blast
  from full have 6: "\<forall>c s. handshake_succeeds g state c s \<longrightarrow>
            out = Returns None \<and> state' = state\<lparr>conn := Some c, stream := Some s\<rparr> \<and>
            es = [Dialed (address state), Connected c, Opened s, Sent s (connect_request state),
                  Received s (Inr RemoteMessage_ConnectResponse), Spawned s,
                  Published (EndpointConnectedEvent (address state))]"
    by blast
  from quiet have 8: "out \<noteq> Returns None \<longrightarrow>
      (\<forall>e. Published e \<notin> set es) \<and> (\<forall>s. Spawned s \<notin> set es)"
    by blast
  from panics have 9: "\<forall>err (ser :: 'm serializer) ctx.
      out = Returns (Some err) \<and> Message ctx = Started \<longrightarrow>
      Receive ser g state ctx = (Panics (PanicError err), state', es @ [Sleep 2])"
    by blast
  from fails have 10: "\<forall>err (ser :: 'm serializer) ctx c.
            out = Returns (Some err) \<and> Message ctx = Started \<and> phase c = Running \<and> actor c = state \<longrightarrow>
            step c (Deliver ser g ctx) =
              \<lparr>actor = state', phase = Failed, trace = trace c @ es @ [Sleep 2]\<rparr> \<and>
            (\<forall>ser' g' ctx'. step (step c (Deliver ser g ctx)) (Deliver ser' g' ctx') =
               step c (Deliver ser g ctx)) \<and>
            conn (actor (step (step c (Deliver ser g ctx)) Restart)) = None \<and>
            stream (actor (step (step c (Deliver ser g ctx)) Restart)) = None"
    by blast
  from 1 2 3 4 5 6 iff 8 9 10 show ?thesis by (intro conjI)
qed

text \<open>
  A witness for C7: gRPC whose handshake response is of another variant. The connect
  returns the error and leaves connection 1 and stream 7 in the struct; handling the
  start message panics; the component is failed, it does not handle the batch that
  follows, and after a restart the instance has no stream.
\<close>

theorem failed_connect_exposes_nothing_witness:
  "initializeInternal wrong_variant_grpc fresh_writer =
     (Returns (Some InvalidConnectResponse), writer_on_stream_7,
      [Dialed ''node2:8090'', Connected 1, Opened 7,
       Sent 7 (RemoteMessage_ConnectRequest ''sys1'' ''node1:8090''),
       Received 7 (Inr RemoteMessage_Other) :: string effect]) \<and>
   Receive name_serializer wrong_variant_grpc fresh_writer started_ctx =
     (Panics (PanicError InvalidConnectResponse), writer_on_stream_7,
      [Dialed ''node2:8090'', Connected 1, Opened 7,
       Sent 7 (RemoteMessage_ConnectRequest ''sys1'' ''node1:8090''),
       Received 7 (Inr RemoteMessage_Other), Sleep 2]) \<and>
   run (spawn ''sys1'' ''node1:8090'' ''node2:8090'') refused_then_batch =
     \<lparr>actor = writer_on_stream_7, phase = Failed,
      trace = [Dialed ''node2:8090'', Connected 1, Opened 7,
       Sent 7 (RemoteMessage_ConnectRequest ''sys1'' ''node1:8090''),
       Received 7 (Inr RemoteMessage_Other), Sleep 2]\<rparr> \<and>
   stream (actor (run (spawn ''sys1'' ''node1:8090'' ''node2:8090'') (refused_then_batch @ [Restart]))) = None"
proof -
  note i = initializeInternal_refused [where ?'a = string]
  have m: "Message started_ctx = Started" by (simp add: started_ctx_def)
  note t = failed_connect_exposes_nothing [OF i]
  from t m have r: "Receive name_serializer wrong_variant_grpc fresh_writer started_ctx =
     (Panics (PanicError InvalidConnectResponse), writer_on_stream_7,
      [Dialed ''node2:8090'', Connected 1, Opened 7,
       Sent 7 (RemoteMessage_ConnectRequest ''sys1'' ''node1:8090''),
       Received 7 (Inr RemoteMessage_Other)] @ [Sleep 2])"
    by blast
  have s: "stream (actor (run (spawn ''sys1'' ''node1:8090'' ''node2:8090'') (refused_then_batch @ [Restart]))) = None"
    by (simp add: run_def run_refused_then_batch [unfolded run_def] endpointWriterProducer_def)
  from i r run_refused_then_batch s show ?thesis by simp
qed

subsection \<open>C8: no batch before the handshake\<close>



subsection \<open>C9: a send that fails\<close>

text \<open>
  C9. When handling a batch reaches the send and the send returns an error,
  \<^verbatim>\<open>Receive\<close> stashes the batch it is handling and then panics with "restart it";
  nothing else happens and the state is unchanged.
\<close>

theorem failed_send_stashes_and_panics:
  assumes "Message ctx = Batch msg"
    and "Sent s m \<in> set (snd (snd (Receive ser g state ctx)))"
    and "Send g s m = Some err"
  shows "Receive ser g state ctx =
           (Panics (PanicString ''restart it''), state, [Sent s m, Stash (Batch msg)])"
proof -
  from assms(1) have r: "Receive ser g state ctx =
      (fst (sendEnvelopes ser g state msg ctx), state, snd (sendEnvelopes ser g state msg ctx))"
    by (simp add: Receive_def split: prod.splits)
  with assms(2) have sent: "Sent s m \<in> set (snd (sendEnvelopes ser g state msg ctx))" by simp
  from sendEnvelopes_Sent [OF sent] obtain L where
    L: "assemble ser msg = Completed L" "stream state = Some s" "m = RemoteMessage_MessageBatch (batch_of L)"
    by blast
  with assms(1,3) have "sendEnvelopes ser g state msg ctx =
      (Panics (PanicString ''restart it''), [Sent s m, Stash (Batch msg)])"
    by (simp add: sendEnvelopes_def)
  with r show ?thesis by simp
qed

text \<open>
  A witness for C9: \<open>scenario_A\<close> on a stream that refuses the send.
\<close>

theorem failed_send_stashes_and_panics_witness:
  "Message (batch_ctx scenario_A) = Batch scenario_A \<and>
   Sent 7 (RemoteMessage_MessageBatch scenario_A_batch) \<in>
     set (snd (snd (Receive name_serializer rejecting_grpc writer_on_stream_7 (batch_ctx scenario_A)))) \<and>
   Send rejecting_grpc 7 (RemoteMessage_MessageBatch scenario_A_batch) = Some (TransportError ''broken pipe'') \<and>
   Receive name_serializer rejecting_grpc writer_on_stream_7 (batch_ctx scenario_A) =
     (Panics (PanicString ''restart it''), writer_on_stream_7,
      [Sent 7 (RemoteMessage_MessageBatch scenario_A_batch), Stash (Batch scenario_A)])"
proof -
  have a: "Message (batch_ctx scenario_A) = Batch scenario_A" by (simp add: batch_ctx_def)
  have b: "Sent 7 (RemoteMessage_MessageBatch scenario_A_batch) \<in>
     set (snd (snd (Receive name_serializer rejecting_grpc writer_on_stream_7 (batch_ctx scenario_A))))"
    by (simp add: Receive_scenario_A_rejected)
  have c: "Send rejecting_grpc 7 (RemoteMessage_MessageBatch scenario_A_batch) = Some (TransportError ''broken pipe'')"
    by (simp add: rejecting_grpc_def)
  note d = failed_send_stashes_and_panics [OF a b c]
  from a b c d show ?thesis by (intro conjI)
qed

subsection \<open>C10: the serializer id\<close>

text \<open>
  C10. \<^verbatim>\<open>sendEnvelopes\<close> asks the serializer with id 0 only (it behaves the same with
  a serializer that ignores the id it is given), the variable \<^verbatim>\<open>serializerID\<close> is 0
  when the loop ends, and every envelope of a batch that is sent is there and has
  serializer id 0.
\<close>

theorem serializerID_is_always_zero:
  "sendEnvelopes ser g state msg ctx = sendEnvelopes (\<lambda>m sid. ser m 0) g state msg ctx \<and>
   (\<forall>L. assemble ser msg = Completed L \<longrightarrow> serializerID L = 0) \<and>
   (\<forall>s b x. Sent s (RemoteMessage_MessageBatch b) \<in> set (snd (sendEnvelopes ser g state msg ctx)) \<longrightarrow>
      x \<in> set (Envelopes b) \<longrightarrow> (\<exists>e. x = Some e \<and> SerializerId e = 0))"
proof (intro conjI allI impI)
  show "sendEnvelopes ser g state msg ctx = sendEnvelopes (\<lambda>m sid. ser m 0) g state msg ctx"
    unfolding sendEnvelopes_def using assemble_zero [of ser msg] by simp
  show "serializerID L = 0" if "assemble ser msg = Completed L" for L
    using assemble_Completed(2) [OF that] .
  show "\<exists>e. x = Some e \<and> SerializerId e = 0"
    if sent: "Sent s (RemoteMessage_MessageBatch b) \<in> set (snd (sendEnvelopes ser g state msg ctx))"
      and x: "x \<in> set (Envelopes b)" for s b x
  proof -
    from sendEnvelopes_Sent [OF sent] obtain L where
      L: "assemble ser msg = Completed L" and b: "b = batch_of L" by auto
    from x b have "x \<in> set (envelopes L)" by (simp add: batch_of_def)
    then obtain i where i: "i < length (envelopes L)" "x = envelopes L ! i"
      by (auto simp: in_set_conv_nth)
    with assemble_Completed(1) [OF L] have "i < length msg" by simp
    from assemble_envelope [OF L this] i show ?thesis
      by (auto simp: envelope_for_def)
  qed
qed

text \<open>
  A witness for C10: \<open>scenario_A\<close> on an accepting stream.
\<close>

theorem serializerID_is_always_zero_witness:
  "sendEnvelopes name_serializer accepting_grpc writer_on_stream_7 scenario_A (batch_ctx scenario_A) =
     sendEnvelopes (\<lambda>m sid. name_serializer m 0) accepting_grpc writer_on_stream_7 scenario_A (batch_ctx scenario_A) \<and>
   Sent 7 (RemoteMessage_MessageBatch scenario_A_batch) \<in>
     set (snd (sendEnvelopes name_serializer accepting_grpc writer_on_stream_7 scenario_A (batch_ctx scenario_A))) \<and>
   list_all (\<lambda>x. \<exists>e. x = Some e \<and> SerializerId e = 0) (Envelopes scenario_A_batch)"
proof -
  note t = serializerID_is_always_zero [of name_serializer accepting_grpc writer_on_stream_7 scenario_A "batch_ctx scenario_A"]
  have s: "Sent 7 (RemoteMessage_MessageBatch scenario_A_batch) \<in>
     set (snd (sendEnvelopes name_serializer accepting_grpc writer_on_stream_7 scenario_A (batch_ctx scenario_A)))"
    by (simp add: sendEnvelopes_scenario_A)
  from t s have "\<forall>x\<in>set (Envelopes scenario_A_batch). \<exists>e. x = Some e \<and> SerializerId e = 0"
    by blast
  then have "list_all (\<lambda>x. \<exists>e. x = Some e \<and> SerializerId e = 0) (Envelopes scenario_A_batch)"
    by (simp add: list_all_iff)
  with t s show ?thesis by blast
qed

end
